theory Spec2Isabelle
  imports Complex_Main
begin

section \<open>Text extraction with quality fallback (src/src/pdf_parser.py)\<close>

text \<open>
  A shallow embedding of \<^verbatim>\<open>PDFParser\<close>: the two quality scorers, the metadata and page
  adapters, and the orchestration of \<^verbatim>\<open>extract_text\<close> with its fallback.

  Conventions of the model.
  \<^item> A Python \<^verbatim>\<open>str\<close> of extracted text is a list of Unicode code points (\<open>nat list\<close>),
    so that \<^verbatim>\<open>len\<close> counts what Python counts. Names and messages, which are ASCII in
    the source, are \<open>string\<close>.
  \<^item> Python floats are read as real numbers: the scores are products of the literals
    \<^verbatim>\<open>0.5\<close>, \<^verbatim>\<open>0.7\<close>, \<^verbatim>\<open>0.8\<close>, \<^verbatim>\<open>1.1\<close>, \<^verbatim>\<open>0.9\<close> and quotients of small integers;
    rounding is not modelled.
  \<^item> The three libraries are not part of the repository. What they answer for the file
    at hand is a parameter (\<open>env\<close>): whether each is importable, and, per backend,
    either the exception raised on opening or the opened document.
  \<^item> An exception is a value; a function that can raise returns \<open>exn + 'a\<close>.
  \<^item> The parser's mutable attribute \<^verbatim>\<open>self.backend\<close> and the module's logger are the
    state, passed explicitly.
  \<^item> \<^verbatim>\<open>extraction_time\<close> (wall-clock time) is left out of the result record.
\<close>

subsection \<open>Strings\<close>

type_synonym utext = "nat list"

text \<open>\<^verbatim>\<open>str.isspace\<close> for one code point: the characters \<^verbatim>\<open>str.split()\<close> and
  \<^verbatim>\<open>str.strip()\<close> treat as whitespace.\<close>

definition is_space :: "nat \<Rightarrow> bool" where
  "is_space c \<longleftrightarrow>
     (9 \<le> c \<and> c \<le> 13) \<or> (28 \<le> c \<and> c \<le> 32) \<or> c = 133 \<or> c = 160 \<or> c = 5760 \<or>
     (8192 \<le> c \<and> c \<le> 8202) \<or> c = 8232 \<or> c = 8233 \<or> c = 8239 \<or> c = 8287 \<or> c = 12288"

text \<open>\<^verbatim>\<open>text.split()\<close>: maximal runs of non-whitespace; \<open>w\<close> is the run being read,
  reversed.\<close>

fun split_ws :: "utext \<Rightarrow> utext \<Rightarrow> utext list" where
  "split_ws w [] = (if w = [] then [] else [rev w])"
| "split_ws w (c # cs) =
     (if is_space c then (if w = [] then split_ws [] cs else rev w # split_ws [] cs)
      else split_ws (c # w) cs)"

definition py_split :: "utext \<Rightarrow> utext list" where
  "py_split t = split_ws [] t"

text \<open>\<^verbatim>\<open>text.strip()\<close>.\<close>

definition py_strip :: "utext \<Rightarrow> utext" where
  "py_strip t = rev (dropWhile is_space (rev (dropWhile is_space t)))"

text \<open>\<^verbatim>\<open>text.split(sep)\<close> for a one-character separator; \<open>l\<close> is the piece being read,
  reversed.\<close>

fun split_on :: "nat \<Rightarrow> utext \<Rightarrow> utext \<Rightarrow> utext list" where
  "split_on sep l [] = [rev l]"
| "split_on sep l (c # cs) =
     (if c = sep then rev l # split_on sep [] cs else split_on sep (c # l) cs)"

fun starts_with :: "utext \<Rightarrow> utext \<Rightarrow> bool" where
  "starts_with [] t = True"
| "starts_with (p # ps) [] = False"
| "starts_with (p # ps) (c # cs) = (p = c \<and> starts_with ps cs)"

text \<open>\<^verbatim>\<open>sub in text\<close>.\<close>

fun contains :: "utext \<Rightarrow> utext \<Rightarrow> bool" where
  "contains sub [] = (sub = [])"
| "contains sub (c # cs) = (starts_with sub (c # cs) \<or> contains sub cs)"

text \<open>\<^verbatim>\<open>text.count(c)\<close> for one character.\<close>

definition count_char :: "nat \<Rightarrow> utext \<Rightarrow> nat" where
  "count_char c t = length (filter (\<lambda>x. x = c) t)"

text \<open>\<^verbatim>\<open>sep.join(parts)\<close>.\<close>

fun join :: "utext \<Rightarrow> utext list \<Rightarrow> utext" where
  "join sep [] = []"
| "join sep [x] = x"
| "join sep (x # y # ys) = x @ sep @ join sep (y # ys)"

definition newline :: nat where
  "newline = 10"

text \<open>The literal of line 415 of the source: the three code points U+00EF, U+00BF,
  U+00BD (the UTF-8 bytes of U+FFFD read as Latin-1).\<close>

definition artifact :: utext where
  "artifact = [239, 191, 189]"

subsection \<open>Data model\<close>

record pdf_metadata =
  title :: "utext option"
  author :: "utext option"
  subject :: "utext option"
  keywords_field :: "utext option"
  creator :: "utext option"
  producer :: "utext option"
  creation_date :: "nat option"
  modification_date :: "nat option"
  page_count :: int
  file_size :: int
  is_encrypted :: bool
  is_linearized :: bool
  pdf_version :: "string option"

text \<open>\<^verbatim>\<open>PDFMetadata()\<close>: every field at its default.\<close>

definition PDFMetadata :: pdf_metadata where
  "PDFMetadata = \<lparr>title = None, author = None, subject = None, keywords_field = None,
     creator = None, producer = None, creation_date = None, modification_date = None,
     page_count = 0, file_size = 0, is_encrypted = False, is_linearized = False,
     pdf_version = None\<rparr>"

record page_data =
  page_number :: int
  page_text :: utext
  word_count :: nat
  char_count :: nat
  has_images :: bool
  has_tables :: bool
  extraction_quality :: real

record extraction_result =
  success :: bool
  result_text :: utext
  pages :: "page_data list"
  metadata :: pdf_metadata
  backend_used :: string
  quality_score :: real
  error_message :: "string option"

subsection \<open>Quality scorer\<close>

text \<open>\<^verbatim>\<open>_assess_page_quality\<close>, lines 396 to 418.\<close>

definition assess_page_quality :: "page_data \<Rightarrow> real" where
  "assess_page_quality page_data =
     (if char_count page_data = 0 then 0
      else
        let q0 = (1::real);
            q1 = (if char_count page_data < 50 then q0 * 0.5 else q0);
            q2 = (if word_count page_data > 0
                  then (if real (char_count page_data) / real (word_count page_data) > 15
                        then q1 * 0.7 else q1)
                  else q1);
            q3 = (if contains artifact (page_text page_data) \<or>
                     real (count_char newline (page_text page_data)) /
                       real (max 1 (char_count page_data)) > 0.1
                  then q2 * 0.8 else q2)
        in min 1 q3)"

text \<open>\<^verbatim>\<open>_assess_extraction_quality\<close>, lines 420 to 446.\<close>

definition assess_extraction_quality :: "page_data list \<Rightarrow> utext \<Rightarrow> real" where
  "assess_extraction_quality pages_data full_text =
     (if pages_data = [] then 0
      else
        let avg_page_quality =
              sum_list (map extraction_quality pages_data) / real (length pages_data);
            total_chars = length full_text;
            total_words = length (py_split full_text)
        in if total_chars = 0 then 0
           else
             let quality_score =
                   (if total_words > 0
                    then (let avg_word_length = real total_chars / real total_words
                          in if 2 \<le> avg_word_length \<and> avg_word_length \<le> 12
                             then avg_page_quality * 1.1 else avg_page_quality * 0.9)
                    else avg_page_quality)
             in min 1 quality_score)"

subsection \<open>Exceptions, backends and the libraries' answers\<close>

text \<open>A Python exception caught by \<^verbatim>\<open>except Exception\<close>: its class and \<^verbatim>\<open>str(e)\<close>.\<close>

datatype exn = Exn (exn_class: string) (exn_str: string)

definition AttributeError_get :: exn where
  "AttributeError_get = Exn ''AttributeError'' ''NoneType object has no attribute get''"

definition TypeError_len :: exn where
  "TypeError_len = Exn ''TypeError'' ''object of type NoneType has no len()''"

definition RecursionError :: exn where
  "RecursionError = Exn ''RecursionError'' ''maximum recursion depth exceeded''"

definition ImportError_none :: exn where
  "ImportError_none = Exn ''ImportError''
     ''No PDF parsing libraries available. Install PyMuPDF, pdfplumber, or PyPDF2''"

datatype backend = pymupdf | pdfplumber | pypdf2

fun backend_name :: "backend \<Rightarrow> string" where
  "backend_name pymupdf = ''pymupdf''"
| "backend_name pdfplumber = ''pdfplumber''"
| "backend_name pypdf2 = ''pypdf2''"

text \<open>What a library gives for one page: the text its extraction call returns (\<open>None\<close> is
  Python's \<^verbatim>\<open>None\<close>), the number of images and the number of tables it reports.\<close>

record raw_page =
  raw_text :: "utext option"
  image_count :: nat
  table_count :: nat

text \<open>An opened document as a library presents it: the metadata dictionary (\<open>None\<close> when
  the attribute is \<^verbatim>\<open>None\<close>), the encryption flag (\<^verbatim>\<open>needs_pass\<close>, \<^verbatim>\<open>is_encrypted\<close>),
  \<^verbatim>\<open>is_pdf\<close>, and the page sequence, where reading a page either raises or gives a
  \<open>raw_page\<close>. The page count a library reports is the length of this sequence.\<close>

record document =
  doc_metadata :: "(string \<rightharpoonup> utext) option"
  doc_encrypted :: bool
  doc_is_pdf :: bool
  doc_pages :: "(exn + raw_page) list"

text \<open>The world of one call: the module's import flags, the file as \<^verbatim>\<open>pathlib\<close> sees it,
  and what each library answers when it opens the file.\<close>

record env =
  has_pymupdf :: bool
  has_pdfplumber :: bool
  has_pypdf2 :: bool
  file_path :: string
  file_suffix :: string
  file_exists :: "exn + bool"
  stat_size :: "exn + int"
  open_doc :: "backend \<Rightarrow> exn + document"

text \<open>The records of the module's logger, one constructor per logging call of the
  source.\<close>

datatype event =
    Warning_backend_not_available string
  | Warning_metadata exn
  | Error_page_content exn
  | Info_quality_below_threshold real
  | Info_trying_fallback backend
  | Info_fallback_improved real
  | Info_pdf_extracted nat
  | Error_extracting exn

text \<open>The parser object (the attributes \<^verbatim>\<open>extract_text\<close> reads or writes) together with
  the log.\<close>

record parser =
  preferred_backend :: string
  backend :: backend
  quality_threshold :: real
  logged :: "event list"

definition log_event :: "event \<Rightarrow> parser \<Rightarrow> parser" where
  "log_event e s = s\<lparr>logged := logged s @ [e]\<rparr>"

subsection \<open>Backend selection\<close>

text \<open>\<^verbatim>\<open>_select_pdf_backend\<close>, lines 139 to 160, with the log it appends to.\<close>

definition select_pdf_backend ::
  "env \<Rightarrow> string \<Rightarrow> event list \<Rightarrow> (exn + backend) \<times> event list" where
  "select_pdf_backend env preferred lg =
     (let auto_select = (\<lambda>lg'.
            if has_pymupdf env then (Inr pymupdf, lg')
            else if has_pdfplumber env then (Inr pdfplumber, lg')
            else if has_pypdf2 env then (Inr pypdf2, lg')
            else (Inl ImportError_none, lg'))
      in if preferred \<noteq> ''auto'' then
           (if preferred = ''pymupdf'' \<and> has_pymupdf env then (Inr pymupdf, lg)
            else if preferred = ''pdfplumber'' \<and> has_pdfplumber env then (Inr pdfplumber, lg)
            else if preferred = ''pypdf2'' \<and> has_pypdf2 env then (Inr pypdf2, lg)
            else auto_select (lg @ [Warning_backend_not_available preferred]))
         else auto_select lg)"

text \<open>\<^verbatim>\<open>_backend_available\<close>, lines 494 to 502.\<close>

fun backend_available :: "env \<Rightarrow> backend \<Rightarrow> bool" where
  "backend_available env pymupdf = has_pymupdf env"
| "backend_available env pdfplumber = has_pdfplumber env"
| "backend_available env pypdf2 = has_pypdf2 env"

text \<open>\<^verbatim>\<open>_has_fallback_backend\<close>, lines 448 to 460: some available backend differs from the
  current one.\<close>

definition has_fallback_backend :: "env \<Rightarrow> parser \<Rightarrow> bool" where
  "has_fallback_backend env s =
     (let all_backends =
            (if has_pymupdf env then [pymupdf] else []) @
            (if has_pdfplumber env then [pdfplumber] else []) @
            (if has_pypdf2 env then [pypdf2] else [])
      in length (filter (\<lambda>b. b \<noteq> backend s) all_backends) > 0)"

subsection \<open>Input check\<close>

definition lower_char :: "char \<Rightarrow> char" where
  "lower_char c =
     (if 65 \<le> (of_char c :: nat) \<and> (of_char c :: nat) \<le> 90
      then char_of ((of_char c :: nat) + 32) else c)"

text \<open>\<^verbatim>\<open>can_parse\<close>, lines 162 to 165. \<^verbatim>\<open>Path.exists()\<close> answers \<^verbatim>\<open>False\<close> for a missing
  file, and raises the \<^verbatim>\<open>OSError\<close> of the underlying \<^verbatim>\<open>stat\<close> for every other error number
  than ENOENT, ENOTDIR, EBADF and ELOOP (CPython 3.8 to 3.12, the versions
  \<^verbatim>\<open>setup.py\<close> declares): a name too long for the file system or a directory that may
  not be searched. \<^verbatim>\<open>and\<close> evaluates it only when the suffix matches.\<close>

definition can_parse :: "env \<Rightarrow> exn + bool" where
  "can_parse env =
     (if map lower_char (file_suffix env) = ''.pdf'' then file_exists env else Inr False)"

subsection \<open>Metadata adapter\<close>

text \<open>\<^verbatim>\<open>_extract_metadata\<close>, lines 255 to 302. \<^verbatim>\<open>stat()\<close> is outside the \<^verbatim>\<open>try\<close>, so what it
  raises leaves the function; what is raised inside is logged and the metadata as
  assigned so far is returned. In the first branch the descriptive fields are read
  before \<^verbatim>\<open>page_count\<close> is assigned, in the other two after. An empty dictionary gives
  \<open>None\<close> for every key, which is what the fields already hold, so the truth test on the
  dictionary is the test for \<^verbatim>\<open>None\<close>.\<close>

definition extract_metadata :: "env \<Rightarrow> parser \<Rightarrow> (exn + pdf_metadata) \<times> parser" where
  "extract_metadata env s =
     (case stat_size env of
        Inl e \<Rightarrow> (Inl e, s)
      | Inr sz \<Rightarrow>
          let metadata = PDFMetadata\<lparr>file_size := sz\<rparr> in
          (case backend s of
             pymupdf \<Rightarrow>
               (case open_doc env pymupdf of
                  Inl e \<Rightarrow> (Inr metadata, log_event (Warning_metadata e) s)
                | Inr doc \<Rightarrow>
                    (case doc_metadata doc of
                       None \<Rightarrow> (Inr metadata, log_event (Warning_metadata AttributeError_get) s)
                     | Some meta \<Rightarrow>
                         (Inr (metadata\<lparr>title := meta ''title'', author := meta ''author'',
                                 subject := meta ''subject'', keywords_field := meta ''keywords'',
                                 creator := meta ''creator'', producer := meta ''producer'',
                                 page_count := int (length (doc_pages doc)),
                                 is_encrypted := doc_encrypted doc,
                                 is_linearized := doc_is_pdf doc\<rparr>), s)))
           | pdfplumber \<Rightarrow>
               (case open_doc env pdfplumber of
                  Inl e \<Rightarrow> (Inr metadata, log_event (Warning_metadata e) s)
                | Inr pdf \<Rightarrow>
                    let metadata = metadata\<lparr>page_count := int (length (doc_pages pdf))\<rparr> in
                    (case doc_metadata pdf of
                       None \<Rightarrow> (Inr metadata, s)
                     | Some meta \<Rightarrow>
                         (Inr (metadata\<lparr>title := meta ''Title'', author := meta ''Author'',
                                 subject := meta ''Subject'', keywords_field := meta ''Keywords'',
                                 creator := meta ''Creator'', producer := meta ''Producer''\<rparr>), s)))
           | pypdf2 \<Rightarrow>
               (case open_doc env pypdf2 of
                  Inl e \<Rightarrow> (Inr metadata, log_event (Warning_metadata e) s)
                | Inr reader \<Rightarrow>
                    let metadata = metadata\<lparr>page_count := int (length (doc_pages reader)),
                                            is_encrypted := doc_encrypted reader\<rparr> in
                    (case doc_metadata reader of
                       None \<Rightarrow> (Inr metadata, s)
                     | Some meta \<Rightarrow>
                         (Inr (metadata\<lparr>title := meta ''/Title'', author := meta ''/Author'',
                                 subject := meta ''/Subject'', keywords_field := meta ''/Keywords'',
                                 creator := meta ''/Creator'', producer := meta ''/Producer''\<rparr>),
                          s)))))"

subsection \<open>Page content adapter\<close>

text \<open>\<^verbatim>\<open>_detect_tables_in_text\<close>, lines 381 to 394.\<close>

definition detect_tables_in_text :: "utext \<Rightarrow> bool" where
  "detect_tables_in_text t =
     (if t = [] then False
      else
        let lines = split_on newline [] t;
            aligned_lines =
              length (filter (\<lambda>line. length (py_split line) \<ge> 3 \<and> contains [32, 32] line) lines)
        in aligned_lines \<ge> 3)"

text \<open>The body of the page loop of each branch of \<^verbatim>\<open>_extract_pages_content\<close>: the
  \<^verbatim>\<open>PageData\<close> built from what the library gives for page index \<open>page_num\<close>, scored by
  \<^verbatim>\<open>_assess_page_quality\<close>. \<^verbatim>\<open>len(text)\<close> raises on \<^verbatim>\<open>None\<close>; the second branch replaces
  \<^verbatim>\<open>None\<close> by the empty string first.\<close>

definition scored :: "page_data \<Rightarrow> page_data" where
  "scored page_data = page_data\<lparr>extraction_quality := assess_page_quality page_data\<rparr>"

definition pymupdf_page :: "nat \<Rightarrow> raw_page \<Rightarrow> exn + page_data" where
  "pymupdf_page page_num page =
     (case raw_text page of
        None \<Rightarrow> Inl TypeError_len
      | Some t \<Rightarrow>
          Inr (scored \<lparr>page_number = int page_num + 1, page_text = t,
                 word_count = (if t \<noteq> [] then length (py_split t) else 0),
                 char_count = length t,
                 has_images = (image_count page > 0),
                 has_tables = detect_tables_in_text t,
                 extraction_quality = 1\<rparr>))"

definition pdfplumber_page :: "nat \<Rightarrow> raw_page \<Rightarrow> exn + page_data" where
  "pdfplumber_page page_num page =
     (let t = (case raw_text page of None \<Rightarrow> [] | Some t \<Rightarrow> t)
      in Inr (scored \<lparr>page_number = int page_num + 1, page_text = t,
                word_count = (if t \<noteq> [] then length (py_split t) else 0),
                char_count = length t,
                has_images = (image_count page > 0),
                has_tables = (table_count page > 0),
                extraction_quality = 1\<rparr>))"

definition pypdf2_page :: "nat \<Rightarrow> raw_page \<Rightarrow> exn + page_data" where
  "pypdf2_page page_num page =
     (case raw_text page of
        None \<Rightarrow> Inl TypeError_len
      | Some t \<Rightarrow>
          Inr (scored \<lparr>page_number = int page_num + 1, page_text = t,
                 word_count = (if t \<noteq> [] then length (py_split t) else 0),
                 char_count = length t,
                 has_images = False,
                 has_tables = detect_tables_in_text t,
                 extraction_quality = 1\<rparr>))"

text \<open>The test \<^verbatim>\<open>target_pages and (page_num + 1) not in target_pages\<close>: \<^verbatim>\<open>None\<close> and the empty
  list are both false.\<close>

definition skip_page :: "int list option \<Rightarrow> nat \<Rightarrow> bool" where
  "skip_page target_pages page_num =
     (case target_pages of
        None \<Rightarrow> False
      | Some ps \<Rightarrow> ps \<noteq> [] \<and> int page_num + 1 \<notin> set ps)"

text \<open>The page loop: \<open>page_num\<close> is the index of the next page, \<open>pages_data\<close> the list
  appended to so far. A page that raises ends the loop with the list as it is, and
  the exception goes to the handler of \<^verbatim>\<open>_extract_pages_content\<close>.\<close>

fun page_loop ::
  "(nat \<Rightarrow> raw_page \<Rightarrow> exn + page_data) \<Rightarrow> int list option \<Rightarrow> nat \<Rightarrow>
   (exn + raw_page) list \<Rightarrow> page_data list \<Rightarrow> page_data list \<times> exn option" where
  "page_loop mk target_pages page_num [] pages_data = (pages_data, None)"
| "page_loop mk target_pages page_num (p # ps) pages_data =
     (if skip_page target_pages page_num
      then page_loop mk target_pages (Suc page_num) ps pages_data
      else
        (case p of
           Inl e \<Rightarrow> (pages_data, Some e)
         | Inr page \<Rightarrow>
             (case mk page_num page of
                Inl e \<Rightarrow> (pages_data, Some e)
              | Inr page_data \<Rightarrow>
                  page_loop mk target_pages (Suc page_num) ps (pages_data @ [page_data]))))"

text \<open>\<^verbatim>\<open>_extract_pages_content\<close>, lines 304 to 379. The metadata argument \<open>md\<close> is not read,
  as in the source.\<close>

definition extract_pages_content ::
  "env \<Rightarrow> pdf_metadata \<Rightarrow> int list option \<Rightarrow> parser \<Rightarrow> page_data list \<times> parser" where
  "extract_pages_content env md target_pages s =
     (let finish = (\<lambda>(pages_data, raised).
            case raised of
              None \<Rightarrow> (pages_data, s)
            | Some e \<Rightarrow> (pages_data, log_event (Error_page_content e) s))
      in case backend s of
           pymupdf \<Rightarrow>
             (case open_doc env pymupdf of
                Inl e \<Rightarrow> finish ([], Some e)
              | Inr doc \<Rightarrow> finish (page_loop pymupdf_page target_pages 0 (doc_pages doc) []))
         | pdfplumber \<Rightarrow>
             (case open_doc env pdfplumber of
                Inl e \<Rightarrow> finish ([], Some e)
              | Inr pdf \<Rightarrow> finish (page_loop pdfplumber_page target_pages 0 (doc_pages pdf) []))
         | pypdf2 \<Rightarrow>
             (case open_doc env pypdf2 of
                Inl e \<Rightarrow> finish ([], Some e)
              | Inr reader \<Rightarrow>
                  finish (page_loop pypdf2_page target_pages 0 (doc_pages reader) [])))"

subsection \<open>Orchestrator\<close>

text \<open>The four failed results the source builds, and the successful one. A failed result
  leaves \<^verbatim>\<open>quality_score\<close> at the dataclass default \<^verbatim>\<open>1.0\<close>.\<close>

definition cannot_parse_result :: "env \<Rightarrow> parser \<Rightarrow> extraction_result" where
  "cannot_parse_result env s =
     \<lparr>success = False, result_text = [], pages = [], metadata = PDFMetadata,
      backend_used = backend_name (backend s), quality_score = 1,
      error_message = Some (''Cannot parse file: '' @ file_path env)\<rparr>"

definition no_valid_pages_result :: "pdf_metadata \<Rightarrow> parser \<Rightarrow> extraction_result" where
  "no_valid_pages_result md s =
     \<lparr>success = False, result_text = [], pages = [], metadata = md,
      backend_used = backend_name (backend s), quality_score = 1,
      error_message = Some ''No valid pages specified''\<rparr>"

definition exception_result :: "exn \<Rightarrow> parser \<Rightarrow> extraction_result" where
  "exception_result e s =
     \<lparr>success = False, result_text = [], pages = [], metadata = PDFMetadata,
      backend_used = backend_name (backend s), quality_score = 1,
      error_message = Some (exn_str e)\<rparr>"

definition fallback_failed_result :: extraction_result where
  "fallback_failed_result =
     \<lparr>success = False, result_text = [], pages = [], metadata = PDFMetadata,
      backend_used = ''fallback_failed'', quality_score = 1,
      error_message = Some ''All fallback backends failed''\<rparr>"

text \<open>The \<^verbatim>\<open>except Exception\<close> clause of \<^verbatim>\<open>extract_text\<close>, lines 243 to 253.\<close>

definition handle_exception ::
  "exn \<Rightarrow> parser \<Rightarrow> (exn + extraction_result) \<times> parser" where
  "handle_exception e s = (Inr (exception_result e s), log_event (Error_extracting e) s)"

text \<open>Line 215: the texts of the pages whose stripped text is not empty, joined by a
  blank line.\<close>

definition full_text_of :: "page_data list \<Rightarrow> utext" where
  "full_text_of pages_data =
     join [newline, newline]
       (map page_text (filter (\<lambda>page. py_strip (page_text page) \<noteq> []) pages_data))"

text \<open>Line 199: the bounds filter on the requested pages.\<close>

definition valid_pages :: "pdf_metadata \<Rightarrow> int list \<Rightarrow> int list" where
  "valid_pages md ps = filter (\<lambda>p. 1 \<le> p \<and> p \<le> page_count md) ps"

definition fallback_order :: "backend list" where
  "fallback_order = [pymupdf, pdfplumber, pypdf2]"

text \<open>
  \<^verbatim>\<open>extract_text\<close>, lines 179 to 230: the part before the fallback decision. The
  argument \<open>selected\<close> is the parameter \<^verbatim>\<open>pages\<close> of the source (\<open>pages\<close> names the field
  of the result here). The value is \<open>Inl\<close> of how the call ends when it ends here:
  \<^verbatim>\<open>can_parse\<close>, which is called before the \<^verbatim>\<open>try\<close>, raised (\<open>Inl e\<close>); the file cannot be
  parsed; \<^verbatim>\<open>_extract_metadata\<close> raised inside the \<^verbatim>\<open>try\<close>; or no requested page is valid.
  Otherwise it is \<open>Inr\<close> of the successful \<^verbatim>\<open>result\<close> of line 222, the page selection as
  reassigned on line 199, and the state.
\<close>

definition extract_primary ::
  "env \<Rightarrow> int list option \<Rightarrow> parser \<Rightarrow>
   ((exn + extraction_result) \<times> parser) + (extraction_result \<times> int list option \<times> parser)" where
  "extract_primary env selected s =
     (case can_parse env of
        Inl e \<Rightarrow> Inl (Inl e, s)
      | Inr False \<Rightarrow> Inl (Inr (cannot_parse_result env s), s)
      | Inr True \<Rightarrow>
        (case extract_metadata env s of
           (Inl e, s1) \<Rightarrow> Inl (handle_exception e s1)
         | (Inr md, s1) \<Rightarrow>
             let requested = (case selected of None \<Rightarrow> False | Some ps \<Rightarrow> ps \<noteq> []);
                 selected' = (if requested then map_option (valid_pages md) selected
                              else selected)
             in if requested \<and> selected' = Some []
                then Inl (Inr (no_valid_pages_result md s1), s1)
                else
                  (case extract_pages_content env md selected' s1 of
                     (pages_data, s2) \<Rightarrow>
                       let full_text = full_text_of pages_data;
                           q = assess_extraction_quality pages_data full_text
                       in Inr (\<lparr>success = True, result_text = full_text,
                                 pages = pages_data, metadata = md,
                                 backend_used = backend_name (backend s2),
                                 quality_score = q, error_message = None\<rparr>,
                               selected', s2))))"

text \<open>
  \<^verbatim>\<open>extract_text\<close> (the rest, lines 232 to 253) and \<^verbatim>\<open>_try_fallback_extraction\<close> (lines 462
  to 492) call each other. A call gives \<open>Inl e\<close> when \<open>e\<close> leaves it and \<open>Inr r\<close> when it
  returns \<open>r\<close>.

  The first argument \<open>d\<close> is the number of nested calls of \<^verbatim>\<open>extract_text\<close> the
  interpreter's stack still allows: at \<open>0\<close> the call on line 475 raises
  \<^verbatim>\<open>RecursionError\<close>, as Python does at its recursion bound, and it is an \<^verbatim>\<open>Exception\<close> like
  any other: the \<^verbatim>\<open>finally\<close> of \<^verbatim>\<open>_try_fallback_extraction\<close> runs and the handler of the
  enclosing \<^verbatim>\<open>extract_text\<close> catches it. The theorems hold for every \<open>d\<close>.

  \<open>fallback_loop\<close> is the \<^verbatim>\<open>for\<close> loop of lines 471 to 477 over the rest of
  \<^verbatim>\<open>fallback_order\<close>; it gives \<open>Inl e\<close> when \<open>e\<close> is raised, \<open>Inr (Some r)\<close> for
  \<^verbatim>\<open>return result\<close> and \<open>Inr None\<close> when the loop ends.
\<close>

fun extract_text ::
    "nat \<Rightarrow> env \<Rightarrow> int list option \<Rightarrow> parser \<Rightarrow> (exn + extraction_result) \<times> parser"
  and try_fallback_extraction ::
    "nat \<Rightarrow> env \<Rightarrow> int list option \<Rightarrow> parser \<Rightarrow> (exn + extraction_result) \<times> parser"
  and fallback_loop ::
    "nat \<Rightarrow> env \<Rightarrow> int list option \<Rightarrow> backend \<Rightarrow> backend list \<Rightarrow> parser \<Rightarrow>
     (exn + extraction_result option) \<times> parser"
where
  "extract_text d env selected s =
     (case extract_primary env selected s of
        Inl ended \<Rightarrow> ended
      | Inr (result, selected', s2) \<Rightarrow>
          if quality_score result < quality_threshold s2 \<and> has_fallback_backend env s2
          then
            (case try_fallback_extraction d env selected'
                    (log_event (Info_quality_below_threshold (quality_score result)) s2) of
               (Inl e, s3) \<Rightarrow> handle_exception e s3
             | (Inr fallback_result, s3) \<Rightarrow>
                 if success fallback_result \<and>
                    quality_score fallback_result > quality_score result
                 then (Inr fallback_result,
                       log_event (Info_fallback_improved (quality_score fallback_result)) s3)
                 else (Inr result,
                       log_event (Info_pdf_extracted (length (pages result))) s3))
          else (Inr result, log_event (Info_pdf_extracted (length (pages result))) s2))"
| "try_fallback_extraction d env selected s =
     (let original_backend = backend s
      in case fallback_loop d env selected original_backend fallback_order s of
           (Inl e, s1) \<Rightarrow> (Inl e, s1\<lparr>backend := original_backend\<rparr>)
         | (Inr (Some result), s1) \<Rightarrow> (Inr result, s1\<lparr>backend := original_backend\<rparr>)
         | (Inr None, s1) \<Rightarrow> (Inr fallback_failed_result, s1\<lparr>backend := original_backend\<rparr>))"
| "fallback_loop d env selected original_backend [] s = (Inr None, s)"
| "fallback_loop 0 env selected original_backend (b # bs) s =
     (if b \<noteq> original_backend \<and> backend_available env b
      then (Inl RecursionError, (log_event (Info_trying_fallback b) s)\<lparr>backend := b\<rparr>)
      else fallback_loop 0 env selected original_backend bs s)"
| "fallback_loop (Suc d) env selected original_backend (b # bs) s =
     (if b \<noteq> original_backend \<and> backend_available env b
      then
        (case extract_text d env selected
                ((log_event (Info_trying_fallback b) s)\<lparr>backend := b\<rparr>) of
           (Inl e, s1) \<Rightarrow> (Inl e, s1)
         | (Inr result, s1) \<Rightarrow>
             if success result then (Inr (Some result), s1)
             else fallback_loop (Suc d) env selected original_backend bs s1)
      else fallback_loop (Suc d) env selected original_backend bs s)"

subsection \<open>The scores as the specification words them\<close>

text \<open>The per-page score of section 4.4 of the specification: 1.0 initially; 0.0 when
  \<open>char_count\<close> is 0, with no further penalty; times 0.5 when \<open>0 < char_count < 50\<close>;
  times 0.7 when \<open>word_count > 0\<close> and \<open>char_count / word_count > 15\<close>; times 0.8 when the
  text contains the artifact or the newline count exceeds 10 percent of \<open>char_count\<close>;
  clamped to at most 1.0.\<close>

definition page_quality_spec :: "nat \<Rightarrow> nat \<Rightarrow> utext \<Rightarrow> real" where
  "page_quality_spec cc wc t =
     (if cc = 0 then 0
      else min 1
        (1 * (if 0 < cc \<and> cc < 50 then 0.5 else 1)
           * (if wc > 0 \<and> real cc / real wc > 15 then 0.7 else 1)
           * (if contains artifact t \<or> real (count_char newline t) > 0.1 * real cc
              then 0.8 else 1)))"

text \<open>The aggregate score of section 4.4: the mean of the per-page scores, times 1.1 when
  there are words and the mean word length is within [2, 12], times 0.9 otherwise,
  clamped to [0, 1]; 0.0 for no pages or no characters.\<close>

definition aggregate_quality_spec :: "real list \<Rightarrow> nat \<Rightarrow> nat \<Rightarrow> real" where
  "aggregate_quality_spec scores total_chars total_words =
     (if scores = [] \<or> total_chars = 0 then 0
      else max 0 (min 1
        (sum_list scores / real (length scores)
           * (if total_words > 0 \<and> 2 \<le> real total_chars / real total_words
                 \<and> real total_chars / real total_words \<le> 12
              then 1.1 else 0.9))))"

subsection \<open>Notions used in the statements\<close>

text \<open>The truth value of the parameter \<^verbatim>\<open>pages\<close>: a non-empty list was given.\<close>

definition requested :: "int list option \<Rightarrow> bool" where
  "requested sel = (case sel of None \<Rightarrow> False | Some ps \<Rightarrow> ps \<noteq> [])"

text \<open>The number of pages of the document a backend opens (0 when opening raises).\<close>

definition doc_length :: "env \<Rightarrow> backend \<Rightarrow> nat" where
  "doc_length env b = (case open_doc env b of Inl e \<Rightarrow> 0 | Inr doc \<Rightarrow> length (doc_pages doc))"

text \<open>The document PyMuPDF opens, if it opens one, has a metadata dictionary.\<close>

definition pymupdf_metadata_present :: "env \<Rightarrow> bool" where
  "pymupdf_metadata_present env =
     (case open_doc env pymupdf of Inl e \<Rightarrow> True | Inr doc \<Rightarrow> doc_metadata doc \<noteq> None)"

text \<open>The rule PyMuPDF documents follow: the \<^verbatim>\<open>metadata\<close> attribute is \<^verbatim>\<open>None\<close> only while the
  document still needs a password, and then loading any page raises.\<close>

definition pymupdf_library_rule :: "env \<Rightarrow> bool" where
  "pymupdf_library_rule env =
     (case open_doc env pymupdf of
        Inl e \<Rightarrow> True
      | Inr doc \<Rightarrow> doc_metadata doc \<noteq> None \<or> list_all isl (doc_pages doc))"

text \<open>All pages of a document as a backend reads them: the records of the pages in
  order, from page 1 up to the first page whose read raises (where the loop of the
  source ends); \<open>n\<close> is the index of the first page of \<open>rs\<close>.\<close>

fun pages_until_failure ::
  "(nat \<Rightarrow> raw_page \<Rightarrow> exn + page_data) \<Rightarrow> nat \<Rightarrow> (exn + raw_page) list \<Rightarrow> page_data list" where
  "pages_until_failure mk n [] = []"
| "pages_until_failure mk n (Inl e # rs) = []"
| "pages_until_failure mk n (Inr page # rs) =
     (case mk n page of
        Inl e \<Rightarrow> []
      | Inr page_data \<Rightarrow> page_data # pages_until_failure mk (Suc n) rs)"

definition all_pages :: "env \<Rightarrow> backend \<Rightarrow> page_data list" where
  "all_pages env b =
     (case open_doc env b of
        Inl e \<Rightarrow> []
      | Inr doc \<Rightarrow>
          pages_until_failure
            (case b of pymupdf \<Rightarrow> pymupdf_page | pdfplumber \<Rightarrow> pdfplumber_page
                     | pypdf2 \<Rightarrow> pypdf2_page)
            0 (doc_pages doc))"

text \<open>The same, for the backend a result names in \<^verbatim>\<open>backend_used\<close>.\<close>

definition all_pages_named :: "env \<Rightarrow> string \<Rightarrow> page_data list" where
  "all_pages_named env name =
     (if name = ''pymupdf'' then all_pages env pymupdf
      else if name = ''pdfplumber'' then all_pages env pdfplumber
      else if name = ''pypdf2'' then all_pages env pypdf2
      else [])"

text \<open>A page record as the page loop builds it: the counts are those of its text and the
  score is that of \<^verbatim>\<open>_assess_page_quality\<close>.\<close>

definition page_ok :: "page_data \<Rightarrow> bool" where
  "page_ok p \<longleftrightarrow>
     extraction_quality p = assess_page_quality p \<and>
     char_count p = length (page_text p) \<and>
     word_count p = length (py_split (page_text p))"

text \<open>The invariant of the page loop: page numbers ascend strictly, lie in \<open>[1, hi]\<close> and
  belong to the selection when one is given.\<close>

definition numbered :: "int list option \<Rightarrow> int \<Rightarrow> page_data list \<Rightarrow> bool" where
  "numbered tp hi ps \<longleftrightarrow>
     sorted_wrt (<) (map page_number ps) \<and>
     (\<forall>p\<in>set ps. page_ok p \<and> 1 \<le> page_number p \<and> page_number p \<le> hi \<and>
        (case tp of None \<Rightarrow> True | Some l \<Rightarrow> l = [] \<or> page_number p \<in> set l))"

text \<open>Two parser states with the same backend and threshold.\<close>

definition same_config :: "parser \<Rightarrow> parser \<Rightarrow> bool" where
  "same_config s t \<longleftrightarrow> backend s = backend t \<and> quality_threshold s = quality_threshold t"





subsection \<open>Example inputs\<close>

definition short_text :: utext where
  "short_text = [120]"

definition prose_text :: utext where
  "prose_text =
     [97, 98, 99, 100, 32, 97, 98, 99, 100, 32, 97, 98, 99, 100, 32,
      97, 98, 99, 100, 32, 97, 98, 99, 100, 32, 97, 98, 99, 100, 32,
      97, 98, 99, 100, 32, 97, 98, 99, 100, 32, 97, 98, 99, 100, 32,
      97, 98, 99, 100, 32, 97, 98, 99, 100, 32]"

definition one_page :: "(string \<rightharpoonup> utext) option \<Rightarrow> utext \<Rightarrow> document" where
  "one_page meta t =
     \<lparr>doc_metadata = meta, doc_encrypted = False, doc_is_pdf = True,
      doc_pages = [Inr \<lparr>raw_text = Some t, image_count = 0, table_count = 0\<rparr>]\<rparr>"

definition parser0 :: parser where
  "parser0 = \<lparr>preferred_backend = ''auto'', backend = pymupdf, quality_threshold = 0.7,
               logged = []\<rparr>"

text \<open>All three libraries are installed; PyMuPDF reads one page with the text \<^verbatim>\<open>x\<close>,
  pdfplumber cannot open the file, PyPDF2 reads one page of prose.\<close>

definition env_three :: env where
  "env_three =
     \<lparr>has_pymupdf = True, has_pdfplumber = True, has_pypdf2 = True,
      file_path = ''doc.pdf'', file_suffix = ''.pdf'', file_exists = Inr True,
      stat_size = Inr 1000,
      open_doc = (\<lambda>b. case b of
          pymupdf \<Rightarrow> Inr (one_page (Some Map.empty) short_text)
        | pdfplumber \<Rightarrow> Inl (Exn ''PDFSyntaxError'' ''No /Root object'')
        | pypdf2 \<Rightarrow> Inr (one_page (Some Map.empty) prose_text))\<rparr>"

text \<open>Only PyMuPDF is installed and reads one page of prose; \<open>meta\<close> is the metadata
  attribute of the document.\<close>

definition env_single :: "(string \<rightharpoonup> utext) option \<Rightarrow> env" where
  "env_single meta =
     \<lparr>has_pymupdf = True, has_pdfplumber = False, has_pypdf2 = False,
      file_path = ''doc.pdf'', file_suffix = ''.pdf'', file_exists = Inr True,
      stat_size = Inr 1000,
      open_doc = (\<lambda>b. Inr (one_page meta prose_text))\<rparr>"

text \<open>A path whose name is longer than the file system allows: \<^verbatim>\<open>stat\<close> fails with
  ENAMETOOLONG, which \<^verbatim>\<open>Path.exists()\<close> does not catch.\<close>

definition OSError_name_too_long :: exn where
  "OSError_name_too_long = Exn ''OSError'' ''[Errno 36] File name too long''"

definition env_long_name :: env where
  "env_long_name = (env_single (Some Map.empty))\<lparr>file_exists := Inl OSError_name_too_long\<rparr>"

text \<open>The file does not exist.\<close>

definition env_missing :: env where
  "env_missing = (env_single (Some Map.empty))\<lparr>file_exists := Inr False\<rparr>"

text \<open>Only PyMuPDF is installed and reads one page without text.\<close>

definition env_blank :: env where
  "env_blank =
     \<lparr>has_pymupdf = True, has_pdfplumber = False, has_pypdf2 = False,
      file_path = ''doc.pdf'', file_suffix = ''.pdf'', file_exists = Inr True,
      stat_size = Inr 1000,
      open_doc = (\<lambda>b. Inr (one_page (Some Map.empty) []))\<rparr>"

text \<open>The page records and results the model computes on these inputs.\<close>

definition prose_page :: page_data where
  "prose_page =
     \<lparr>page_number = 1, page_text = prose_text, word_count = 11, char_count = 55,
      has_images = False, has_tables = False, extraction_quality = 1\<rparr>"

definition short_page :: page_data where
  "short_page =
     \<lparr>page_number = 1, page_text = short_text, word_count = 1, char_count = 1,
      has_images = False, has_tables = False, extraction_quality = 1 / 2\<rparr>"

definition blank_page :: page_data where
  "blank_page =
     \<lparr>page_number = 1, page_text = [], word_count = 0, char_count = 0,
      has_images = False, has_tables = False, extraction_quality = 0\<rparr>"

definition metadata_read :: "bool \<Rightarrow> pdf_metadata" where
  "metadata_read is_pdf = PDFMetadata\<lparr>page_count := 1, file_size := 1000, is_linearized := is_pdf\<rparr>"

definition metadata_unread :: pdf_metadata where
  "metadata_unread = PDFMetadata\<lparr>file_size := 1000\<rparr>"

definition prose_result :: "pdf_metadata \<Rightarrow> string \<Rightarrow> extraction_result" where
  "prose_result md name =
     \<lparr>success = True, result_text = prose_text, pages = [prose_page], metadata = md,
      backend_used = name, quality_score = 1, error_message = None\<rparr>"

definition short_result :: extraction_result where
  "short_result =
     \<lparr>success = True, result_text = short_text, pages = [short_page],
      metadata = metadata_read True, backend_used = ''pymupdf'', quality_score = 9 / 20,
      error_message = None\<rparr>"

definition blank_result :: extraction_result where
  "blank_result =
     \<lparr>success = True, result_text = [], pages = [blank_page],
      metadata = metadata_read True, backend_used = ''pymupdf'', quality_score = 0,
      error_message = None\<rparr>"

section \<open>Verification\<close>

declare extract_text.simps [simp del] try_fallback_extraction.simps [simp del]

lemma split_ws_nonempty:
  "split_ws w t \<noteq> [] \<longleftrightarrow> w \<noteq> [] \<or> (\<exists>c\<in>set t. \<not> is_space c)"
  by (induction t arbitrary: w) auto

lemma py_split_nonempty: "py_split t \<noteq> [] \<longleftrightarrow> (\<exists>c\<in>set t. \<not> is_space c)"
  by (simp add: py_split_def split_ws_nonempty)

lemma dropWhile_keeps_nonspace:
  "(\<exists>c\<in>set (dropWhile is_space t). \<not> is_space c) \<longleftrightarrow> (\<exists>c\<in>set t. \<not> is_space c)"
  by (induction t) auto

lemma py_strip_nonempty: "py_strip t \<noteq> [] \<longleftrightarrow> (\<exists>c\<in>set t. \<not> is_space c)"
proof -
  have "py_strip t \<noteq> [] \<longleftrightarrow> (\<exists>c\<in>set (rev (dropWhile is_space t)). \<not> is_space c)"
    by (simp add: py_strip_def dropWhile_eq_Nil_conv)
  then show ?thesis by (simp add: dropWhile_keeps_nonspace)
qed

lemma set_join: "x \<in> set xs \<Longrightarrow> set x \<subseteq> set (join sep xs)"
  by (induction sep xs rule: join.induct) auto

lemma join_Nil_iff: "join sep xs \<noteq> [] \<Longrightarrow> xs \<noteq> []"
  by auto

lemma full_text_has_word:
  assumes "full_text_of ps \<noteq> []"
  shows "py_split (full_text_of ps) \<noteq> []"
proof -
  let ?l = "map page_text (filter (\<lambda>page. py_strip (page_text page) \<noteq> []) ps)"
  from assms have "?l \<noteq> []" by (auto simp: full_text_of_def)
  then obtain x where x: "x \<in> set ?l" by (cases ?l) auto
  then have "py_strip x \<noteq> []" by auto
  then obtain c where c: "c \<in> set x" "\<not> is_space c" by (auto simp: py_strip_nonempty)
  from x have "set x \<subseteq> set (full_text_of ps)" unfolding full_text_of_def by (rule set_join)
  with c show ?thesis by (auto simp: py_split_nonempty)
qed

lemma assess_page_quality_bounds: "0 \<le> assess_page_quality p \<and> assess_page_quality p \<le> 1"
  by (simp add: assess_page_quality_def Let_def)

lemma assess_extraction_quality_le_1: "assess_extraction_quality ps t \<le> 1"
  by (simp add: assess_extraction_quality_def Let_def)

lemma assess_page_quality_spec:
  "assess_page_quality p = page_quality_spec (char_count p) (word_count p) (page_text p)"
  by (simp add: assess_page_quality_def page_quality_spec_def Let_def field_simps)

lemma page_ok_scored:
  "char_count p = length (page_text p) \<Longrightarrow> word_count p = length (py_split (page_text p)) \<Longrightarrow>
   page_ok (scored p)"
  by (simp add: page_ok_def scored_def assess_page_quality_def)

lemma page_number_scored [simp]: "page_number (scored p) = page_number p"
  by (simp add: scored_def)

lemma py_split_Nil [simp]: "py_split [] = []"
  by (simp add: py_split_def)

lemma pymupdf_page_ok: "pymupdf_page n raw = Inr p \<Longrightarrow> page_ok p \<and> page_number p = int n + 1"
  by (auto simp: pymupdf_page_def intro!: page_ok_scored split: option.splits)

lemma pdfplumber_page_ok: "pdfplumber_page n raw = Inr p \<Longrightarrow> page_ok p \<and> page_number p = int n + 1"
  by (auto simp: pdfplumber_page_def Let_def intro!: page_ok_scored split: option.splits)

lemma pypdf2_page_ok: "pypdf2_page n raw = Inr p \<Longrightarrow> page_ok p \<and> page_number p = int n + 1"
  by (auto simp: pypdf2_page_def intro!: page_ok_scored split: option.splits)

text \<open>page loop invariant\<close>

lemma page_loop_numbered:
  assumes mk: "\<And>n raw p. mk n raw = Inr p \<Longrightarrow> page_ok p \<and> page_number p = int n + 1"
  shows "numbered tp (int n) acc \<Longrightarrow>
         numbered tp (int n + int (length rs)) (fst (page_loop mk tp n rs acc))"
proof (induction rs arbitrary: n acc)
  case Nil
  then show ?case by simp
next
  case (Cons r rs)
  have mono: "numbered tp (int n) acc \<Longrightarrow> numbered tp (int (Suc n)) acc"
    by (auto simp: numbered_def)
  show ?case
  proof (cases "skip_page tp n")
    case True
    with Cons.IH[of "Suc n" acc] mono[OF Cons.prems] show ?thesis by (simp add: algebra_simps)
  next
    case ns: False
    show ?thesis
    proof (cases r)
      case (Inl e)
      with ns Cons.prems show ?thesis by (auto simp: numbered_def)
    next
      case (Inr raw)
      show ?thesis
      proof (cases "mk n raw")
        case (Inl e)
        with ns Inr Cons.prems show ?thesis by (auto simp: numbered_def)
      next
        case (Inr p)
        from mk[OF Inr] have p: "page_ok p" "page_number p = int n + 1" by auto
        have "numbered tp (int (Suc n)) (acc @ [p])"
          using Cons.prems p ns
          by (auto simp: numbered_def sorted_wrt_append skip_page_def split: option.splits)
        from Cons.IH[OF this] show ?thesis using ns \<open>r = Inr raw\<close> Inr
          by (simp add: algebra_simps)
      qed
    qed
  qed
qed

lemma numbered_length:
  assumes "numbered tp hi ps"
  shows "int (length ps) \<le> max 0 hi"
proof -
  from assms have d: "distinct (map page_number ps)"
    by (simp add: numbered_def strict_sorted_iff)
  from assms have "set (map page_number ps) \<subseteq> {1..hi}" by (auto simp: numbered_def)
  then have "card (set (map page_number ps)) \<le> card {1..hi}" by (intro card_mono) auto
  moreover from d have "card (set (map page_number ps)) = length (map page_number ps)"
    by (rule distinct_card)
  ultimately have "length ps \<le> card {1..hi}" by simp
  then show ?thesis by simp
qed

lemma log_event_fields [simp]:
  "backend (log_event e s) = backend s"
  "quality_threshold (log_event e s) = quality_threshold s"
  "preferred_backend (log_event e s) = preferred_backend s"
  "logged (log_event e s) = logged s @ [e]"
  by (simp_all add: log_event_def)

lemma extract_metadata_state:
  "extract_metadata env s = (x, s1) \<Longrightarrow>
   backend s1 = backend s \<and> quality_threshold s1 = quality_threshold s"
  by (auto simp: extract_metadata_def Let_def split: sum.splits backend.splits option.splits)

lemma extract_metadata_page_count:
  "extract_metadata env s = (Inr md, s1) \<Longrightarrow>
   page_count md = int (doc_length env (backend s)) \<or>
   (page_count md = 0 \<and> backend s = pymupdf \<and> \<not> pymupdf_metadata_present env)"
  by (auto simp: extract_metadata_def Let_def doc_length_def pymupdf_metadata_present_def
        PDFMetadata_def split: sum.splits backend.splits option.splits)

lemma extract_metadata_page_count_nonneg:
  "extract_metadata env s = (Inr md, s1) \<Longrightarrow> 0 \<le> page_count md"
  by (drule extract_metadata_page_count) auto

lemma extract_pages_content_state:
  "extract_pages_content env md tp s = (pd, s2) \<Longrightarrow>
   backend s2 = backend s \<and> quality_threshold s2 = quality_threshold s"
  by (auto simp: extract_pages_content_def Let_def split: sum.splits backend.splits option.splits prod.splits)

lemma numbered_Nil [simp]: "numbered tp hi []"
  by (simp add: numbered_def)

lemma extract_pages_content_numbered:
  "extract_pages_content env md tp s = (pd, s2) \<Longrightarrow>
   numbered tp (int (doc_length env (backend s))) pd"
proof -
  assume a: "extract_pages_content env md tp s = (pd, s2)"
  have k: "\<And>mk rs. (\<And>n raw p. mk n raw = Inr p \<Longrightarrow> page_ok p \<and> page_number p = int n + 1) \<Longrightarrow>
     numbered tp (int (length rs)) (fst (page_loop mk tp 0 rs []))"
    using page_loop_numbered[where n=0 and acc="[]"] by force
  note k1 = k[where mk=pymupdf_page, OF pymupdf_page_ok]
  note k2 = k[where mk=pdfplumber_page, OF pdfplumber_page_ok]
  note k3 = k[where mk=pypdf2_page, OF pypdf2_page_ok]
  show ?thesis
  proof (cases "open_doc env (backend s)")
    case (Inl e)
    with a show ?thesis
      by (cases "backend s") (auto simp: extract_pages_content_def doc_length_def)
  next
    case (Inr doc)
    from k1[where rs="doc_pages doc"] k2[where rs="doc_pages doc"] k3[where rs="doc_pages doc"] Inr a show ?thesis
      by (cases "backend s")
         (auto simp: extract_pages_content_def doc_length_def split: prod.splits option.splits)
  qed
qed

lemma extract_primary_raise:
  "can_parse env = Inl e \<Longrightarrow> extract_primary env sel s = Inl (Inl e, s)"
  by (simp add: extract_primary_def)

lemma extract_primary_cannot:
  "can_parse env = Inr False \<Longrightarrow>
   extract_primary env sel s = Inl (Inr (cannot_parse_result env s), s)"
  by (simp add: extract_primary_def)

lemma extract_primary_stat:
  "can_parse env = Inr True \<Longrightarrow> extract_metadata env s = (Inl e, s1) \<Longrightarrow>
   extract_primary env sel s = Inl (handle_exception e s1)"
  by (simp add: extract_primary_def)

lemma extract_primary_novalid:
  "can_parse env = Inr True \<Longrightarrow> extract_metadata env s = (Inr md, s1) \<Longrightarrow>
   sel = Some ps \<Longrightarrow> ps \<noteq> [] \<Longrightarrow> valid_pages md ps = [] \<Longrightarrow>
   extract_primary env sel s = Inl (Inr (no_valid_pages_result md s1), s1)"
  by (simp add: extract_primary_def)

lemma extract_primary_proceed:
  assumes cp: "can_parse env = Inr True"
    and md: "extract_metadata env s = (Inr md, s1)"
    and sel': "sel' = (if requested sel then map_option (valid_pages md) sel else sel)"
    and ok: "\<not> (requested sel \<and> sel' = Some [])"
    and pc: "extract_pages_content env md sel' s1 = (pd, s2)"
  shows "extract_primary env sel s =
     Inr (\<lparr>success = True, result_text = full_text_of pd, pages = pd, metadata = md,
           backend_used = backend_name (backend s2),
           quality_score = assess_extraction_quality pd (full_text_of pd),
           error_message = None\<rparr>, sel', s2)"
proof (cases "requested sel")
  case True
  then obtain a where a: "sel = Some a" "a \<noteq> []"
    by (cases sel) (auto simp: requested_def)
  with True sel' ok have v: "sel' = Some (valid_pages md a)" "valid_pages md a \<noteq> []" by auto
  with cp md pc a show ?thesis by (simp add: extract_primary_def Let_def)
next
  case False
  with sel' have e: "sel' = sel" by simp
  from False have "sel = None \<or> sel = Some []" by (cases sel) (auto simp: requested_def)
  with cp md pc e show ?thesis by (auto simp: extract_primary_def Let_def)
qed

lemma extract_metadata_raise_state: "extract_metadata env s = (Inl e, s1) \<Longrightarrow> s1 = s"
  by (cases "stat_size env"; cases "backend s")
     (auto simp: extract_metadata_def Let_def split: sum.splits option.splits)

lemma extract_primary_cases:
  obtains (raised) e where "can_parse env = Inl e" "extract_primary env sel s = Inl (Inl e, s)"
  | (cannot) "can_parse env = Inr False"
      "extract_primary env sel s = Inl (Inr (cannot_parse_result env s), s)"
  | (stat) e where "can_parse env = Inr True" "extract_metadata env s = (Inl e, s)"
      "extract_primary env sel s = Inl (Inr (exception_result e s), log_event (Error_extracting e) s)"
  | (novalid) md s1 ps where "can_parse env = Inr True" "extract_metadata env s = (Inr md, s1)"
      "sel = Some ps" "ps \<noteq> []" "valid_pages md ps = []"
      "extract_primary env sel s = Inl (Inr (no_valid_pages_result md s1), s1)"
  | (proceed) md s1 sel' pd s2 where "can_parse env = Inr True"
      "extract_metadata env s = (Inr md, s1)"
      "sel' = (if requested sel then map_option (valid_pages md) sel else sel)"
      "\<not> (requested sel \<and> sel' = Some [])"
      "extract_pages_content env md sel' s1 = (pd, s2)"
      "extract_primary env sel s =
         Inr (\<lparr>success = True, result_text = full_text_of pd, pages = pd, metadata = md,
               backend_used = backend_name (backend s2),
               quality_score = assess_extraction_quality pd (full_text_of pd),
               error_message = None\<rparr>, sel', s2)"
proof (cases "can_parse env")
  case (Inl e)
  show ?thesis by (rule raised[OF Inl extract_primary_raise[OF Inl]])
next
  case (Inr b)
  show ?thesis
  proof (cases b)
    case False
    with Inr have cp: "can_parse env = Inr False" by simp
    show ?thesis by (rule cannot[OF cp extract_primary_cannot[OF cp]])
  next
    case True
    with Inr have cp: "can_parse env = Inr True" by simp
    obtain x s1 where m: "extract_metadata env s = (x, s1)" by (cases "extract_metadata env s")
    show ?thesis
    proof (cases x)
      case (Inl e)
      with m have m': "extract_metadata env s = (Inl e, s)"
        by (auto dest: extract_metadata_raise_state)
      have "extract_primary env sel s =
            Inl (Inr (exception_result e s), log_event (Error_extracting e) s)"
        using extract_primary_stat[OF cp m'] by (simp add: handle_exception_def)
      with cp m' show ?thesis by (rule stat)
    next
      case (Inr md)
      with m have m': "extract_metadata env s = (Inr md, s1)" by simp
      define sel' where "sel' = (if requested sel then map_option (valid_pages md) sel else sel)"
      show ?thesis
      proof (cases "requested sel \<and> sel' = Some []")
        case True
        then obtain ps where ps: "sel = Some ps" "ps \<noteq> []" "valid_pages md ps = []"
          by (cases sel) (auto simp: requested_def sel'_def)
        show ?thesis
          by (rule novalid[OF cp m' ps extract_primary_novalid[OF cp m' ps]])
      next
        case False
        obtain pd s2 where pc: "extract_pages_content env md sel' s1 = (pd, s2)"
          by (cases "extract_pages_content env md sel' s1")
        show ?thesis
          by (rule proceed[OF cp m' sel'_def False pc
                extract_primary_proceed[OF cp m' sel'_def False pc]])
      qed
    qed
  qed
qed

lemma fallback_loop_returns:
  assumes nested: "\<And>d' s r. d = Suc d' \<Longrightarrow> fst (extract_text d' env sel s) = Inr r \<Longrightarrow> P r"
  shows "fst (fallback_loop d env sel ob bs s) = Inr (Some r) \<Longrightarrow> success r \<and> P r"
proof (induction bs arbitrary: s)
  case Nil
  then show ?case by simp
next
  case (Cons b bs)
  show ?case
  proof (cases d)
    case 0
    with Cons show ?thesis by (auto split: if_splits)
  next
    case (Suc d')
    show ?thesis
    proof (cases "b \<noteq> ob \<and> backend_available env b")
      case False
      with Cons Suc show ?thesis by auto
    next
      case True
      let ?s = "(log_event (Info_trying_fallback b) s)\<lparr>backend := b\<rparr>"
      obtain x s1 where x: "extract_text d' env sel ?s = (x, s1)" by (cases "extract_text d' env sel ?s")
      show ?thesis
      proof (cases x)
        case (Inl e)
        with Cons.prems Suc True x show ?thesis by simp
      next
        case (Inr r')
        show ?thesis
        proof (cases "success r'")
          case True
          with Cons.prems Suc \<open>b \<noteq> ob \<and> backend_available env b\<close> x Inr have "r = r'" by simp
          moreover from nested[OF Suc, of ?s r'] x Inr have "P r'" by simp
          ultimately show ?thesis using True by simp
        next
          case False
          with Cons.prems Suc \<open>b \<noteq> ob \<and> backend_available env b\<close> x Inr
          have "fst (fallback_loop d env sel ob bs s1) = Inr (Some r)" by simp
          then show ?thesis by (rule Cons.IH)
        qed
      qed
    qed
  qed
qed

lemma try_fallback_returns:
  assumes nested: "\<And>d' s r. d = Suc d' \<Longrightarrow> fst (extract_text d' env sel s) = Inr r \<Longrightarrow> P r"
    and r: "fst (try_fallback_extraction d env sel s) = Inr r"
  shows "r = fallback_failed_result \<or> (success r \<and> P r)"
proof -
  obtain x s1 where x: "fallback_loop d env sel (backend s) fallback_order s = (x, s1)"
    by (cases "fallback_loop d env sel (backend s) fallback_order s")
  show ?thesis
  proof (cases x)
    case (Inl e)
    with x r show ?thesis by (simp add: try_fallback_extraction.simps)
  next
    case (Inr opt)
    show ?thesis
    proof (cases opt)
      case None
      with x r Inr show ?thesis by (simp add: try_fallback_extraction.simps)
    next
      case (Some r')
      with x r Inr have "r = r'" by (simp add: try_fallback_extraction.simps)
      moreover from x Inr Some have "fst (fallback_loop d env sel (backend s) fallback_order s) = Inr (Some r')"
        by simp
      from fallback_loop_returns[where P=P, OF nested this] have "success r' \<and> P r'" by simp
      ultimately show ?thesis by simp
    qed
  qed
qed

lemma fallback_failed_not_success [simp]: "\<not> success fallback_failed_result"
  by (simp add: fallback_failed_result_def)

lemma extract_text_invariant:
  assumes Q0: "Q sel"
    and prim: "\<And>sel s r sel' s2. Q sel \<Longrightarrow> extract_primary env sel s = Inr (r, sel', s2) \<Longrightarrow> P r \<and> Q sel'"
    and early: "\<And>sel s r s'. Q sel \<Longrightarrow> extract_primary env sel s = Inl (Inr r, s') \<Longrightarrow> P r"
    and exc: "\<And>e s. P (exception_result e s)"
    and r: "fst (extract_text d env sel s) = Inr r"
  shows "P r"
  using Q0 r
proof (induction d arbitrary: sel s r rule: less_induct)
  case (less d)
  show ?case
  proof (cases "extract_primary env sel s")
    case (Inl ended)
    with less.prems(2) have "extract_primary env sel s = Inl (Inr r, snd ended)"
      by (cases ended) (simp add: extract_text.simps)
    from early[OF less.prems(1) this] show ?thesis .
  next
    case (Inr t)
    obtain r0 sel' s2 where t: "t = (r0, sel', s2)" by (cases t)
    from prim[OF less.prems(1) Inr[unfolded t]] have r0: "P r0" "Q sel'" by auto
    show ?thesis
    proof (cases "quality_score r0 < quality_threshold s2 \<and> has_fallback_backend env s2")
      case False
      with less.prems(2) Inr t have "r = r0" by (auto simp: extract_text.simps)
      with r0 show ?thesis by simp
    next
      case True
      let ?s = "log_event (Info_quality_below_threshold (quality_score r0)) s2"
      obtain x s3 where x: "try_fallback_extraction d env sel' ?s = (x, s3)"
        by (cases "try_fallback_extraction d env sel' ?s")
      show ?thesis
      proof (cases x)
        case (Inl e)
        with less.prems(2) Inr t True x have "r = exception_result e s3"
          by (simp add: extract_text.simps handle_exception_def)
        with exc show ?thesis by simp
      next
        case (Inr fr)
        have "fr = fallback_failed_result \<or> (success fr \<and> P fr)"
        proof (rule try_fallback_returns[where P=P])
          show "fst (try_fallback_extraction d env sel' ?s) = Inr fr" using x Inr by simp
        next
          fix d' s' r' assume "d = Suc d'" "fst (extract_text d' env sel' s') = Inr r'"
          with less.IH[of d' sel' s' r'] r0 show "P r'" by simp
        qed
        with less.prems(2) \<open>extract_primary env sel s = Inr t\<close> t True x Inr r0 show ?thesis
          by (auto simp: extract_text.simps split: if_splits)
      qed
    qed
  qed
qed

lemma extract_primary_InrE:
  assumes "extract_primary env sel s = Inr (r, sel', s2)"
  obtains md s1 where
    "can_parse env = Inr True"
    "extract_metadata env s = (Inr md, s1)"
    "sel' = (if requested sel then map_option (valid_pages md) sel else sel)"
    "\<not> (requested sel \<and> sel' = Some [])"
    "extract_pages_content env md sel' s1 = (pages r, s2)"
    "r = \<lparr>success = True, result_text = full_text_of (pages r), pages = pages r, metadata = md,
          backend_used = backend_name (backend s2),
          quality_score = assess_extraction_quality (pages r) (full_text_of (pages r)),
          error_message = None\<rparr>"
proof (rule extract_primary_cases[of env sel s])
  fix md s1 sel'' pd s2'
  assume a: "can_parse env = Inr True" "extract_metadata env s = (Inr md, s1)"
     "sel'' = (if requested sel then map_option (valid_pages md) sel else sel)"
     "\<not> (requested sel \<and> sel'' = Some [])"
     "extract_pages_content env md sel'' s1 = (pd, s2')"
     and e: "extract_primary env sel s =
         Inr (\<lparr>success = True, result_text = full_text_of pd, pages = pd, metadata = md,
               backend_used = backend_name (backend s2'),
               quality_score = assess_extraction_quality pd (full_text_of pd),
               error_message = None\<rparr>, sel'', s2')"
  from e assms have eq1: "sel'' = sel'" and eq2: "s2' = s2" and
    eq3: "r = \<lparr>success = True, result_text = full_text_of pd, pages = pd, metadata = md,
               backend_used = backend_name (backend s2'),
               quality_score = assess_extraction_quality pd (full_text_of pd),
               error_message = None\<rparr>" by simp_all
  have pd: "pages r = pd" by (simp add: eq3)
  show thesis
  proof (rule that[OF a(1) a(2)])
    show "sel' = (if requested sel then map_option (valid_pages md) sel else sel)"
      using a(3) eq1 by simp
    show "\<not> (requested sel \<and> sel' = Some [])" using a(4) eq1 by simp
    show "extract_pages_content env md sel' s1 = (pages r, s2)" using a(5) eq1 eq2 pd by simp
    show "r = \<lparr>success = True, result_text = full_text_of (pages r), pages = pages r,
          metadata = md, backend_used = backend_name (backend s2),
          quality_score = assess_extraction_quality (pages r) (full_text_of (pages r)),
          error_message = None\<rparr>"
      unfolding pd using eq3 eq2 by simp
  qed
next
  fix e assume "extract_primary env sel s = Inl (Inl e, s)"
  with assms show thesis by simp
next
  assume "extract_primary env sel s = Inl (Inr (cannot_parse_result env s), s)"
  with assms show thesis by simp
next
  fix e assume "extract_primary env sel s =
      Inl (Inr (exception_result e s), log_event (Error_extracting e) s)"
  with assms show thesis by simp
next
  fix md s1 assume "extract_primary env sel s = Inl (Inr (no_valid_pages_result md s1), s1)"
  with assms show thesis by simp
qed

lemma extract_primary_InlE:
  assumes "extract_primary env sel s = Inl (Inr r, s')"
  obtains (cannot) "r = cannot_parse_result env s"
  | (stat) e where "r = exception_result e s"
  | (novalid) md s1 ps where "can_parse env = Inr True" "extract_metadata env s = (Inr md, s1)"
      "sel = Some ps" "ps \<noteq> []" "valid_pages md ps = []" "r = no_valid_pages_result md s1" "s' = s1"
proof (rule extract_primary_cases[of env sel s])
  fix e assume "extract_primary env sel s = Inl (Inl e, s)"
  with assms show thesis by simp
next
  assume "extract_primary env sel s = Inl (Inr (cannot_parse_result env s), s)"
  with assms have "r = cannot_parse_result env s" by auto
  then show thesis by (rule cannot)
next
  fix e assume "extract_primary env sel s =
      Inl (Inr (exception_result e s), log_event (Error_extracting e) s)"
  with assms have "r = exception_result e s" by auto
  then show thesis by (rule stat)
next
  fix md s1 ps
  assume a: "can_parse env = Inr True" "extract_metadata env s = (Inr md, s1)"
    "sel = Some ps" "ps \<noteq> []" "valid_pages md ps = []"
    and e: "extract_primary env sel s = Inl (Inr (no_valid_pages_result md s1), s1)"
  from e assms have "r = no_valid_pages_result md s1" "s' = s1" by auto
  with a show thesis by (intro novalid)
next
  fix md s1 sel' pd s2
  assume "extract_primary env sel s =
         Inr (\<lparr>success = True, result_text = full_text_of pd, pages = pd, metadata = md,
               backend_used = backend_name (backend s2),
               quality_score = assess_extraction_quality pd (full_text_of pd),
               error_message = None\<rparr>, sel', s2)"
  with assms show thesis by simp
qed

lemma failed_results [simp]:
  "\<not> success (cannot_parse_result env s)" "pages (cannot_parse_result env s) = []"
  "result_text (cannot_parse_result env s) = []"
  "\<not> success (exception_result e s)" "pages (exception_result e s) = []"
  "result_text (exception_result e s) = []"
  "\<not> success (no_valid_pages_result md s)" "pages (no_valid_pages_result md s) = []"
  "result_text (no_valid_pages_result md s) = []"
  "quality_score (exception_result e s) = 1"
  by (simp_all add: cannot_parse_result_def exception_result_def no_valid_pages_result_def)

lemma extract_text_pages_invariant:
  assumes Q0: "Q sel"
    and prim: "\<And>sel s r sel' s2. Q sel \<Longrightarrow> extract_primary env sel s = Inr (r, sel', s2) \<Longrightarrow> P r \<and> Q sel'"
    and empty: "\<And>r. \<not> success r \<Longrightarrow> pages r = [] \<Longrightarrow> result_text r = [] \<Longrightarrow> P r"
    and r: "fst (extract_text d env sel s) = Inr r"
  shows "P r"
proof (rule extract_text_invariant[where P=P and Q=Q, OF Q0 prim _ _ r])
  fix sel s r s' assume "Q sel" "extract_primary env sel s = Inl (Inr r, s')"
  then show "P r" by (elim extract_primary_InlE) (simp_all add: empty)
next
  fix e s show "P (exception_result e s)" by (simp add: empty)
qed

lemma numbered_page_ok: "numbered tp hi ps \<Longrightarrow> p \<in> set ps \<Longrightarrow> page_ok p"
  by (simp add: numbered_def)

lemma primary_pages_numbered:
  assumes "extract_primary env sel s = Inr (r, sel', s2)"
  shows "numbered sel' (int (doc_length env (backend s))) (pages r)"
proof -
  from assms obtain md s1 where md: "extract_metadata env s = (Inr md, s1)"
    and pc: "extract_pages_content env md sel' s1 = (pages r, s2)"
    by (rule extract_primary_InrE)
  from extract_metadata_state[OF md] have "backend s1 = backend s" by simp
  with extract_pages_content_numbered[OF pc] show ?thesis by simp
qed

lemma primary_success:
  assumes "extract_primary env sel s = Inr (r, sel', s2)"
  shows "success r \<and> result_text r = full_text_of (pages r) \<and>
         quality_score r = assess_extraction_quality (pages r) (full_text_of (pages r))"
proof -
  from assms obtain md where
    "r = \<lparr>success = True, result_text = full_text_of (pages r), pages = pages r, metadata = md,
          backend_used = backend_name (backend s2),
          quality_score = assess_extraction_quality (pages r) (full_text_of (pages r)),
          error_message = None\<rparr>"
    by (rule extract_primary_InrE)
  then have "success r = True" "result_text r = full_text_of (pages r)"
    "quality_score r = assess_extraction_quality (pages r) (full_text_of (pages r))"
    by (metis extraction_result.select_convs(1), metis extraction_result.select_convs(2),
        metis extraction_result.select_convs(6))
  then show ?thesis by simp
qed

lemma returned_pages_ok:
  assumes "fst (extract_text d env sel s) = Inr r"
  shows "\<forall>p\<in>set (pages r). page_ok p"
proof (rule extract_text_pages_invariant[where Q="\<lambda>_. True" and P="\<lambda>r. \<forall>p\<in>set (pages r). page_ok p",
        OF _ _ _ assms])
  fix sel s r sel' s2
  assume "extract_primary env sel s = Inr (r, sel', s2)"
  from primary_pages_numbered[OF this] show "(\<forall>p\<in>set (pages r). page_ok p) \<and> True"
    by (auto dest: numbered_page_ok)
qed simp_all

text \<open>
  Claim C7. Every result \<^verbatim>\<open>extract_text\<close> returns with \<^verbatim>\<open>success == False\<close> has the empty
  string as its text and no page records.
\<close>
theorem failed_result_is_empty:
  assumes "fst (extract_text d env selected s) = Inr r" and "\<not> success r"
  shows "result_text r = [] \<and> pages r = []"
proof -
  have "\<not> success r \<longrightarrow> result_text r = [] \<and> pages r = []"
  proof (rule extract_text_pages_invariant[where Q="\<lambda>_. True"
          and P="\<lambda>r. \<not> success r \<longrightarrow> result_text r = [] \<and> pages r = []", OF _ _ _ assms(1)])
    fix sel s r sel' s2
    assume "extract_primary env sel s = Inr (r, sel', s2)"
    from primary_success[OF this]
    show "(\<not> success r \<longrightarrow> result_text r = [] \<and> pages r = []) \<and> True" by simp
  qed simp_all
  with assms(2) show ?thesis by simp
qed

text \<open>
  Claim C2. Every page record of a result \<^verbatim>\<open>extract_text\<close> returns carries the score the
  specification words: 1.0, set to 0.0 for \<open>char_count = 0\<close>, halved for fewer than 50
  characters, times 0.7 for more than 15 characters per word, times 0.8 for the artifact
  or a newline count above 10 percent of the characters, clamped to 1.0. A page whose
  text is empty has the score 0.0. (The artifact is the literal of the source, see
  \<open>artifact\<close>.)
\<close>
theorem page_quality_as_specified:
  assumes "fst (extract_text d env selected s) = Inr r" and "p \<in> set (pages r)"
  shows "extraction_quality p = page_quality_spec (char_count p) (word_count p) (page_text p) \<and>
         (page_text p = [] \<longrightarrow> extraction_quality p = 0)"
proof -
  from returned_pages_ok[OF assms(1)] assms(2) have ok: "page_ok p" by simp
  then have "extraction_quality p = page_quality_spec (char_count p) (word_count p) (page_text p)"
    by (simp add: page_ok_def assess_page_quality_spec)
  moreover from ok have "page_text p = [] \<longrightarrow> extraction_quality p = 0"
    by (simp add: page_ok_def assess_page_quality_def)
  ultimately show ?thesis by simp
qed

lemma page_ok_nonneg: "page_ok p \<Longrightarrow> 0 \<le> extraction_quality p"
  using assess_page_quality_bounds[of p] by (simp add: page_ok_def)

lemma aggregate_as_specified:
  assumes ok: "\<forall>p\<in>set ps. page_ok p"
  shows "assess_extraction_quality ps (full_text_of ps) =
         aggregate_quality_spec (map extraction_quality ps) (length (full_text_of ps))
           (length (py_split (full_text_of ps)))"
proof (cases "ps = [] \<or> full_text_of ps = []")
  case True
  then show ?thesis
    by (auto simp: assess_extraction_quality_def aggregate_quality_spec_def Let_def)
next
  case False
  then have w: "length (py_split (full_text_of ps)) > 0" using full_text_has_word by simp
  define avg where "avg = sum_list (map extraction_quality ps) / real (length ps)"
  from ok have "0 \<le> sum_list (map extraction_quality ps)"
    by (intro sum_list_nonneg) (auto dest: page_ok_nonneg)
  then have avg: "0 \<le> avg" by (simp add: avg_def)
  define m where "m = (if 2 \<le> real (length (full_text_of ps)) / real (length (py_split (full_text_of ps)))
      \<and> real (length (full_text_of ps)) / real (length (py_split (full_text_of ps))) \<le> 12
      then (1.1::real) else 0.9)"
  have m: "0 \<le> m" by (simp add: m_def)
  have lhs: "assess_extraction_quality ps (full_text_of ps) = min 1 (avg * m)"
    using False w by (simp add: assess_extraction_quality_def Let_def avg_def m_def mult.commute)
  have rhs: "aggregate_quality_spec (map extraction_quality ps) (length (full_text_of ps))
           (length (py_split (full_text_of ps))) = max 0 (min 1 (avg * m))"
    using False w by (simp add: aggregate_quality_spec_def avg_def m_def mult.commute)
  from avg m have "0 \<le> avg * m" by simp
  then have "max 0 (min 1 (avg * m)) = min 1 (avg * m)" by simp
  with lhs rhs show ?thesis by simp
qed

text \<open>
  Claim C3. The aggregate score of every successful result \<^verbatim>\<open>extract_text\<close> returns is
  the one the specification words: the mean of the page scores, times 1.1 when the
  text has words and its mean word length is within [2, 12] and times 0.9 otherwise,
  clamped to [0, 1], and 0.0 for no pages or no characters. The branch of the source
  that leaves the mean unchanged (characters but no words) is never taken, because the
  text joins only pages that are not blank.
\<close>
theorem aggregate_quality_as_specified:
  assumes "fst (extract_text d env selected s) = Inr r" and "success r"
  shows "quality_score r =
         aggregate_quality_spec (map extraction_quality (pages r)) (length (result_text r))
           (length (py_split (result_text r)))"
proof -
  let ?P = "\<lambda>r. success r \<longrightarrow> quality_score r =
         aggregate_quality_spec (map extraction_quality (pages r)) (length (result_text r))
           (length (py_split (result_text r)))"
  have "?P r"
  proof (rule extract_text_pages_invariant[where Q="\<lambda>_. True" and P="?P", OF _ _ _ assms(1)])
    fix sel s r sel' s2
    assume p: "extract_primary env sel s = Inr (r, sel', s2)"
    from primary_pages_numbered[OF p] have "\<forall>p\<in>set (pages r). page_ok p"
      by (auto dest: numbered_page_ok)
    from aggregate_as_specified[OF this] primary_success[OF p]
    show "?P r \<and> True" by simp
  qed simp_all
  with assms(2) show ?thesis by simp
qed

lemma can_parse_missing: "can_parse env_missing = Inr False"
  by (simp add: can_parse_def env_missing_def env_single_def lower_char_def)

lemma extract_text_missing:
  "extract_text d env_missing selected s = (Inr (cannot_parse_result env_missing s), s)"
  by (simp add: extract_text.simps extract_primary_cannot[OF can_parse_missing])

lemma can_parse_single: "can_parse (env_single meta) = Inr True"
  by (simp add: can_parse_def env_single_def lower_char_def)

lemma prose_len: "length prose_text = 55"
  by (simp add: prose_text_def)

lemma prose_words: "length (py_split prose_text) = 11"
  by (simp add: prose_text_def py_split_def is_space_def)

lemma prose_strip: "py_strip prose_text \<noteq> []"
  by (simp add: py_strip_nonempty prose_text_def is_space_def)

lemma prose_artifact: "\<not> contains artifact prose_text"
  by (simp add: prose_text_def artifact_def)

lemma prose_newlines: "count_char newline prose_text = 0"
  by (simp add: prose_text_def count_char_def newline_def)

lemma prose_nonempty: "prose_text \<noteq> []"
  by (simp add: prose_text_def)

lemma prose_tables: "\<not> detect_tables_in_text prose_text"
  by (simp add: detect_tables_in_text_def prose_text_def newline_def)

lemma prose_page_quality:
  "assess_page_quality \<lparr>page_number = 1, page_text = prose_text, word_count = 11,
      char_count = 55, has_images = False, has_tables = False, extraction_quality = 1\<rparr> = 1"
  by (simp add: assess_page_quality_def prose_artifact prose_newlines)

lemma pymupdf_prose_page:
  "pymupdf_page 0 \<lparr>raw_text = Some prose_text, image_count = 0, table_count = 0\<rparr> = Inr prose_page"
  using prose_page_quality
  by (simp add: pymupdf_page_def scored_def prose_page_def prose_len prose_words prose_tables
        prose_nonempty)

lemma pypdf2_prose_page:
  "pypdf2_page 0 \<lparr>raw_text = Some prose_text, image_count = 0, table_count = 0\<rparr> = Inr prose_page"
  using prose_page_quality
  by (simp add: pypdf2_page_def scored_def prose_page_def prose_len prose_words prose_tables
        prose_nonempty)

lemma prose_full_text: "full_text_of [prose_page] = prose_text"
  by (simp add: full_text_of_def prose_page_def prose_strip)

lemma prose_aggregate: "assess_extraction_quality [prose_page] prose_text = 1"
  by (simp add: assess_extraction_quality_def prose_len prose_words prose_page_def)

lemma open_single: "open_doc (env_single meta) b = Inr (one_page meta prose_text)"
  by (simp add: env_single_def)

lemma stat_single: "stat_size (env_single meta) = Inr 1000"
  by (simp add: env_single_def)

lemma metadata_single_read:
  "backend s = pymupdf \<Longrightarrow>
   extract_metadata (env_single (Some Map.empty)) s = (Inr (metadata_read True), s)"
  by (simp add: extract_metadata_def open_single stat_single one_page_def metadata_read_def
        PDFMetadata_def)

lemma metadata_single_unread:
  "backend s = pymupdf \<Longrightarrow>
   extract_metadata (env_single None) s =
     (Inr metadata_unread, log_event (Warning_metadata AttributeError_get) s)"
  by (simp add: extract_metadata_def open_single stat_single one_page_def metadata_unread_def)

lemma pages_single:
  "backend s = pymupdf \<Longrightarrow>
   extract_pages_content (env_single meta) md None s = ([prose_page], s)"
  by (simp add: extract_pages_content_def open_single one_page_def skip_page_def
        pymupdf_prose_page)

lemma no_fallback_single: "backend s = pymupdf \<Longrightarrow> \<not> has_fallback_backend (env_single meta) s"
  by (simp add: has_fallback_backend_def env_single_def)

lemma primary_single_read:
  assumes "backend s = pymupdf"
  shows "extract_primary (env_single (Some Map.empty)) None s =
         Inr (prose_result (metadata_read True) ''pymupdf'', None, s)"
  using extract_primary_proceed[OF can_parse_single metadata_single_read[OF assms] _ _
          pages_single[OF assms], where sel=None] assms
  by (simp add: requested_def prose_full_text prose_aggregate prose_result_def)

lemma extract_text_single_read:
  assumes "backend s = pymupdf"
  shows "extract_text d (env_single (Some Map.empty)) None s =
         (Inr (prose_result (metadata_read True) ''pymupdf''), log_event (Info_pdf_extracted 1) s)"
  by (simp add: extract_text.simps primary_single_read[OF assms] no_fallback_single[OF assms]
        prose_result_def)

lemma primary_single_unread:
  assumes "backend s = pymupdf"
  shows "extract_primary (env_single None) None s =
         Inr (prose_result metadata_unread ''pymupdf'', None,
              log_event (Warning_metadata AttributeError_get) s)"
  using extract_primary_proceed[OF can_parse_single metadata_single_unread[OF assms] _ _
          pages_single, where sel=None] assms
  by (simp add: requested_def prose_full_text prose_aggregate prose_result_def)

lemma extract_text_single_unread:
  assumes "backend s = pymupdf"
  shows "extract_text d (env_single None) None s =
         (Inr (prose_result metadata_unread ''pymupdf''),
          log_event (Info_pdf_extracted 1) (log_event (Warning_metadata AttributeError_get) s))"
  using assms
  by (simp add: extract_text.simps primary_single_unread[OF assms] no_fallback_single
        prose_result_def)

lemma can_parse_blank: "can_parse env_blank = Inr True"
  by (simp add: can_parse_def env_blank_def lower_char_def)

lemma metadata_blank:
  "backend s = pymupdf \<Longrightarrow> extract_metadata env_blank s = (Inr (metadata_read True), s)"
  by (simp add: extract_metadata_def env_blank_def one_page_def metadata_read_def PDFMetadata_def)

lemma pymupdf_blank_page:
  "pymupdf_page 0 \<lparr>raw_text = Some [], image_count = 0, table_count = 0\<rparr> = Inr blank_page"
  by (simp add: pymupdf_page_def scored_def blank_page_def assess_page_quality_def
        detect_tables_in_text_def)

lemma pages_blank:
  "backend s = pymupdf \<Longrightarrow> extract_pages_content env_blank md None s = ([blank_page], s)"
  by (simp add: extract_pages_content_def env_blank_def one_page_def skip_page_def
        pymupdf_blank_page)

lemma no_fallback_blank: "backend s = pymupdf \<Longrightarrow> \<not> has_fallback_backend env_blank s"
  by (simp add: has_fallback_backend_def env_blank_def)

lemma blank_full_text: "full_text_of [blank_page] = []"
  by (simp add: full_text_of_def blank_page_def py_strip_def)

lemma primary_blank:
  assumes "backend s = pymupdf"
  shows "extract_primary env_blank None s = Inr (blank_result, None, s)"
  using extract_primary_proceed[OF can_parse_blank metadata_blank[OF assms] _ _
          pages_blank[OF assms], where sel=None] assms
  by (simp add: requested_def blank_full_text blank_result_def assess_extraction_quality_def)

lemma extract_text_blank:
  assumes "backend s = pymupdf"
  shows "extract_text d env_blank None s =
         (Inr blank_result, log_event (Info_pdf_extracted 1) s)"
  by (simp add: extract_text.simps primary_blank[OF assms] no_fallback_blank[OF assms]
        blank_result_def)

theorem failed_result_is_empty_witness:
  "fst (extract_text 0 env_missing None parser0) = Inr (cannot_parse_result env_missing parser0) \<and>
   \<not> success (cannot_parse_result env_missing parser0) \<and>
   result_text (cannot_parse_result env_missing parser0) = [] \<and>
   pages (cannot_parse_result env_missing parser0) = []"
proof -
  have h1: "fst (extract_text 0 env_missing None parser0) =
            Inr (cannot_parse_result env_missing parser0)"
    by (simp add: extract_text_missing)
  have h2: "\<not> success (cannot_parse_result env_missing parser0)" by simp
  show ?thesis using h1 h2 failed_result_is_empty[OF h1 h2] by simp
qed

theorem page_quality_as_specified_witness:
  "fst (extract_text 0 env_blank None parser0) = Inr blank_result \<and>
   blank_page \<in> set (pages blank_result) \<and> page_text blank_page = [] \<and>
   extraction_quality blank_page =
     page_quality_spec (char_count blank_page) (word_count blank_page) (page_text blank_page) \<and>
   extraction_quality blank_page = 0"
proof -
  have b: "backend parser0 = pymupdf" by (simp add: parser0_def)
  have h1: "fst (extract_text 0 env_blank None parser0) = Inr blank_result"
    by (simp add: extract_text_blank[OF b])
  have h2: "blank_page \<in> set (pages blank_result)" by (simp add: blank_result_def)
  have h3: "page_text blank_page = []" by (simp add: blank_page_def)
  show ?thesis using h1 h2 h3 page_quality_as_specified[OF h1 h2] by simp
qed

theorem aggregate_quality_as_specified_witness:
  "fst (extract_text 0 (env_single (Some Map.empty)) None parser0) =
     Inr (prose_result (metadata_read True) ''pymupdf'') \<and>
   success (prose_result (metadata_read True) ''pymupdf'') \<and>
   quality_score (prose_result (metadata_read True) ''pymupdf'') =
     aggregate_quality_spec [1] 55 11"
proof -
  have b: "backend parser0 = pymupdf" by (simp add: parser0_def)
  have h1: "fst (extract_text 0 (env_single (Some Map.empty)) None parser0) =
     Inr (prose_result (metadata_read True) ''pymupdf'')"
    by (simp add: extract_text_single_read[OF b])
  have h2: "success (prose_result (metadata_read True) ''pymupdf'')"
    by (simp add: prose_result_def)
  show ?thesis using h1 h2 aggregate_quality_as_specified[OF h1 h2]
    by (simp add: prose_result_def prose_page_def prose_len prose_words)
qed

lemma same_config_refl [simp]: "same_config s s"
  by (simp add: same_config_def)

lemma same_config_log [simp]: "same_config (log_event e s) t \<longleftrightarrow> same_config s t"
  "same_config t (log_event e s) \<longleftrightarrow> same_config t s"
  by (simp_all add: same_config_def)

lemma same_config_trans: "same_config s t \<Longrightarrow> same_config t u \<Longrightarrow> same_config s u"
  by (simp add: same_config_def)

lemma same_config_sym: "same_config s t \<Longrightarrow> same_config t s"
  by (simp add: same_config_def)

lemma extract_primary_config:
  "(extract_primary env sel s = Inl (x, s') \<longrightarrow> same_config s' s) \<and>
   (extract_primary env sel s = Inr (r, sel', s') \<longrightarrow> same_config s' s)"
proof (rule extract_primary_cases[of env sel s])
  fix e assume "extract_primary env sel s = Inl (Inl e, s)"
  then show ?thesis by auto
next
  assume "extract_primary env sel s = Inl (Inr (cannot_parse_result env s), s)"
  then show ?thesis by auto
next
  fix e assume "extract_primary env sel s =
      Inl (Inr (exception_result e s), log_event (Error_extracting e) s)"
  then show ?thesis by auto
next
  fix md s1 assume m: "extract_metadata env s = (Inr md, s1)"
    and e: "extract_primary env sel s = Inl (Inr (no_valid_pages_result md s1), s1)"
  from extract_metadata_state[OF m] e show ?thesis by (auto simp: same_config_def)
next
  fix md s1 sel'' pd s2
  assume m: "extract_metadata env s = (Inr md, s1)"
    and p: "extract_pages_content env md sel'' s1 = (pd, s2)"
    and e: "extract_primary env sel s =
         Inr (\<lparr>success = True, result_text = full_text_of pd, pages = pd, metadata = md,
               backend_used = backend_name (backend s2),
               quality_score = assess_extraction_quality pd (full_text_of pd),
               error_message = None\<rparr>, sel'', s2)"
  from extract_metadata_state[OF m] extract_pages_content_state[OF p]
  have "same_config s2 s" by (simp add: same_config_def)
  with e show ?thesis by auto
qed

lemma fallback_loop_threshold:
  assumes nested: "\<And>d' s. d = Suc d' \<Longrightarrow>
     quality_threshold (snd (extract_text d' env sel s)) = quality_threshold s"
  shows "quality_threshold (snd (fallback_loop d env sel ob bs s)) = quality_threshold s"
proof (induction bs arbitrary: s)
  case Nil
  show ?case by simp
next
  case (Cons b bs)
  show ?case
  proof (cases d)
    case 0
    with Cons show ?thesis by simp
  next
    case (Suc d')
    let ?s = "(log_event (Info_trying_fallback b) s)\<lparr>backend := b\<rparr>"
    obtain x s1 where x: "extract_text d' env sel ?s = (x, s1)"
      by (cases "extract_text d' env sel ?s")
    from nested[OF Suc, of ?s] x have t: "quality_threshold s1 = quality_threshold s" by simp
    show ?thesis
      using Suc x t Cons.IH[of s] Cons.IH[of s1]
      by (cases x) (auto split: if_splits)
  qed
qed

lemma try_fallback_config:
  assumes nested: "\<And>d' s. d = Suc d' \<Longrightarrow>
     quality_threshold (snd (extract_text d' env sel s)) = quality_threshold s"
  shows "same_config (snd (try_fallback_extraction d env sel s)) s"
proof -
  obtain x s1 where x: "fallback_loop d env sel (backend s) fallback_order s = (x, s1)"
    by (cases "fallback_loop d env sel (backend s) fallback_order s")
  have "quality_threshold (snd (fallback_loop d env sel (backend s) fallback_order s)) =
        quality_threshold s"
  proof (rule fallback_loop_threshold)
    fix d' s' assume "d = Suc d'"
    then show "quality_threshold (snd (extract_text d' env sel s')) = quality_threshold s'"
      by (rule nested)
  qed
  with x have "quality_threshold s1 = quality_threshold s" by simp
  with x show ?thesis
    by (auto simp: try_fallback_extraction.simps same_config_def Let_def
          split: sum.splits option.splits)
qed

lemma extract_text_config: "same_config (snd (extract_text d env sel s)) s"
proof (induction d arbitrary: sel s rule: less_induct)
  case (less d)
  show ?case
  proof (cases "extract_primary env sel s")
    case (Inl ended)
    with extract_primary_config[where env=env and sel=sel and s=s and x="fst ended"
        and s'="snd ended"] show ?thesis
      by (simp add: extract_text.simps)
  next
    case (Inr t)
    obtain r0 sel' s2 where t: "t = (r0, sel', s2)" by (cases t)
    from extract_primary_config[where env=env and sel=sel and s=s and r=r0 and sel'=sel'
        and s'=s2] Inr t
    have c2: "same_config s2 s" by simp
    let ?s = "log_event (Info_quality_below_threshold (quality_score r0)) s2"
    have "same_config (snd (try_fallback_extraction d env sel' ?s)) ?s"
    proof (rule try_fallback_config)
      fix d' s' assume "d = Suc d'"
      with less.IH[of d' sel' s'] show
        "quality_threshold (snd (extract_text d' env sel' s')) = quality_threshold s'"
        by (simp add: same_config_def)
    qed
    then have c3: "same_config (snd (try_fallback_extraction d env sel' ?s)) s"
      using c2 by (simp add: same_config_def)
    show ?thesis
      using Inr t c2 c3
      by (auto simp: extract_text.simps handle_exception_def split: prod.splits sum.splits)
  qed
qed

text \<open>
  Claim C10. After every call of \<^verbatim>\<open>extract_text\<close> the parser's \<^verbatim>\<open>backend\<close> attribute has the
  value it had before the call, whether the call returns or raises and whether or not
  the fallback ran: \<^verbatim>\<open>_try_fallback_extraction\<close> is the only place that assigns it, and its
  \<^verbatim>\<open>finally\<close> clause restores it.
\<close>

theorem backend_restored:
  "backend (snd (extract_text d env selected s)) = backend s"
  using extract_text_config[of d env selected s] by (simp add: same_config_def)

lemma can_parse_three: "can_parse env_three = Inr True"
  by (simp add: can_parse_def env_three_def lower_char_def)

lemma short_page_quality:
  "assess_page_quality \<lparr>page_number = 1, page_text = short_text, word_count = 1,
      char_count = 1, has_images = False, has_tables = False, extraction_quality = 1\<rparr> = 1 / 2"
  by (simp add: assess_page_quality_def short_text_def artifact_def count_char_def newline_def)

lemma pymupdf_short_page:
  "pymupdf_page 0 \<lparr>raw_text = Some short_text, image_count = 0, table_count = 0\<rparr> = Inr short_page"
  using short_page_quality
  by (simp add: pymupdf_page_def scored_def short_page_def short_text_def py_split_def
        is_space_def detect_tables_in_text_def newline_def)

lemma short_full_text: "full_text_of [short_page] = short_text"
  by (simp add: full_text_of_def short_page_def py_strip_def short_text_def is_space_def)

lemma short_aggregate: "assess_extraction_quality [short_page] short_text = 9 / 20"
  by (simp add: assess_extraction_quality_def short_page_def short_text_def py_split_def
        is_space_def)

lemma metadata_three_pymupdf:
  "backend s = pymupdf \<Longrightarrow> extract_metadata env_three s = (Inr (metadata_read True), s)"
  by (simp add: extract_metadata_def env_three_def one_page_def metadata_read_def PDFMetadata_def)

lemma metadata_three_pdfplumber:
  "backend s = pdfplumber \<Longrightarrow>
   extract_metadata env_three s =
     (Inr metadata_unread,
      log_event (Warning_metadata (Exn ''PDFSyntaxError'' ''No /Root object'')) s)"
  by (simp add: extract_metadata_def env_three_def metadata_unread_def)

lemma metadata_three_pypdf2:
  "backend s = pypdf2 \<Longrightarrow> extract_metadata env_three s = (Inr (metadata_read False), s)"
  by (simp add: extract_metadata_def env_three_def one_page_def metadata_read_def PDFMetadata_def)

lemma pages_three_pymupdf:
  "backend s = pymupdf \<Longrightarrow>
   extract_pages_content env_three md (Some [1]) s = ([short_page], s)"
  by (simp add: extract_pages_content_def env_three_def one_page_def skip_page_def
        pymupdf_short_page)

lemma pages_three_pypdf2:
  "backend s = pypdf2 \<Longrightarrow>
   extract_pages_content env_three md (Some [1]) s = ([prose_page], s)"
  by (simp add: extract_pages_content_def env_three_def one_page_def skip_page_def
        pypdf2_prose_page)

lemma valid_pages_read: "valid_pages (metadata_read b) [1] = [1]"
  by (simp add: valid_pages_def metadata_read_def)

lemma valid_pages_unread: "valid_pages metadata_unread ps = []"
  by (simp add: valid_pages_def metadata_unread_def PDFMetadata_def)

lemma primary_three_pymupdf:
  assumes "backend s = pymupdf"
  shows "extract_primary env_three (Some [1]) s = Inr (short_result, Some [1], s)"
  using extract_primary_proceed[OF can_parse_three metadata_three_pymupdf[OF assms] _ _
          pages_three_pymupdf[OF assms], where sel="Some [1]"] assms
  by (simp add: requested_def valid_pages_read short_full_text short_aggregate short_result_def)

lemma primary_three_pdfplumber:
  assumes "backend s = pdfplumber"
  shows "extract_primary env_three (Some [1]) s =
         Inl (Inr (no_valid_pages_result metadata_unread
                (log_event (Warning_metadata (Exn ''PDFSyntaxError'' ''No /Root object'')) s)),
              log_event (Warning_metadata (Exn ''PDFSyntaxError'' ''No /Root object'')) s)"
  by (rule extract_primary_novalid[OF can_parse_three metadata_three_pdfplumber[OF assms],
        where ps="[1]"]) (simp_all add: valid_pages_unread)

lemma primary_three_pypdf2:
  assumes "backend s = pypdf2"
  shows "extract_primary env_three (Some [1]) s =
         Inr (prose_result (metadata_read False) ''pypdf2'', Some [1], s)"
  using extract_primary_proceed[OF can_parse_three metadata_three_pypdf2[OF assms] _ _
          pages_three_pypdf2[OF assms], where sel="Some [1]"] assms
  by (simp add: requested_def valid_pages_read prose_full_text prose_aggregate prose_result_def)

lemma has_fallback_three: "has_fallback_backend env_three s"
  by (cases "backend s") (simp_all add: has_fallback_backend_def env_three_def)

lemma extract_text_three_pdfplumber:
  assumes "backend s = pdfplumber"
  shows "extract_text d env_three (Some [1]) s =
         (Inr (no_valid_pages_result metadata_unread
                (log_event (Warning_metadata (Exn ''PDFSyntaxError'' ''No /Root object'')) s)),
          log_event (Warning_metadata (Exn ''PDFSyntaxError'' ''No /Root object'')) s)"
  by (simp add: extract_text.simps primary_three_pdfplumber[OF assms])

lemma extract_text_three_pypdf2:
  assumes "backend s = pypdf2" and "quality_threshold s \<le> 1"
  shows "extract_text d env_three (Some [1]) s =
         (Inr (prose_result (metadata_read False) ''pypdf2''),
          log_event (Info_pdf_extracted 1) s)"
  using assms(2)
  by (simp add: extract_text.simps primary_three_pypdf2[OF assms(1)] prose_result_def)

lemma three_available [simp]:
  "has_pymupdf env_three" "has_pdfplumber env_three" "has_pypdf2 env_three"
  by (simp_all add: env_three_def)

lemma try_fallback_three:
  "try_fallback_extraction (Suc d) env_three (Some [1])
     (log_event (Info_quality_below_threshold (9 / 20)) parser0) =
   (Inr (prose_result (metadata_read False) ''pypdf2''),
    parser0\<lparr>logged := [Info_quality_below_threshold (9 / 20),
      Info_trying_fallback pdfplumber,
      Warning_metadata (Exn ''PDFSyntaxError'' ''No /Root object''),
      Info_trying_fallback pypdf2,
      Info_pdf_extracted 1]\<rparr>)"
  by (simp add: try_fallback_extraction.simps fallback_order_def
        extract_text_three_pdfplumber extract_text_three_pypdf2
        parser0_def log_event_def no_valid_pages_result_def prose_result_def)

lemma extract_text_three:
  "extract_text (Suc d) env_three (Some [1]) parser0 =
   (Inr (prose_result (metadata_read False) ''pypdf2''),
    parser0\<lparr>logged := [Info_quality_below_threshold (9 / 20),
      Info_trying_fallback pdfplumber,
      Warning_metadata (Exn ''PDFSyntaxError'' ''No /Root object''),
      Info_trying_fallback pypdf2,
      Info_pdf_extracted 1,
      Info_fallback_improved 1]\<rparr>)"
proof -
  have b: "backend parser0 = pymupdf" by (simp add: parser0_def)
  have q: "quality_score short_result = 9 / 20" "quality_threshold parser0 = 7 / 10"
    by (simp_all add: short_result_def parser0_def)
  show ?thesis
    by (simp add: extract_text.simps[of "Suc d"] primary_three_pymupdf[OF b] q
          has_fallback_three try_fallback_three)
       (simp add: prose_result_def log_event_def parser0_def)
qed

text \<open>
  Claim C4. When a call of \<^verbatim>\<open>extract_text\<close> attempts the fallback (the first backend's
  score is below the threshold and another backend is available), the call returns a
  result whose aggregate score is at least the score of the first backend's result.
\<close>

theorem fallback_never_lowers_score:
  assumes "extract_primary env selected s = Inr (result, selected', s2)"
    and "quality_score result < quality_threshold s2"
    and "has_fallback_backend env s2"
  shows "case fst (extract_text d env selected s) of
           Inl e \<Rightarrow> False
         | Inr r \<Rightarrow> quality_score result \<le> quality_score r"
proof -
  let ?s = "log_event (Info_quality_below_threshold (quality_score result)) s2"
  obtain x s3 where x: "try_fallback_extraction d env selected' ?s = (x, s3)"
    by (cases "try_fallback_extraction d env selected' ?s")
  from primary_success[OF assms(1)] have "quality_score result \<le> 1"
    by (simp add: assess_extraction_quality_le_1)
  with assms x show ?thesis
    by (cases x) (simp_all add: extract_text.simps handle_exception_def)
qed

theorem fallback_never_lowers_score_witness:
  "extract_primary env_three (Some [1]) parser0 = Inr (short_result, Some [1], parser0) \<and>
   quality_score short_result < quality_threshold parser0 \<and>
   has_fallback_backend env_three parser0 \<and>
   fst (extract_text 1 env_three (Some [1]) parser0) =
     Inr (prose_result (metadata_read False) ''pypdf2'') \<and>
   quality_score short_result \<le> quality_score (prose_result (metadata_read False) ''pypdf2'')"
proof -
  have b: "backend parser0 = pymupdf" by (simp add: parser0_def)
  have h1: "extract_primary env_three (Some [1]) parser0 = Inr (short_result, Some [1], parser0)"
    by (rule primary_three_pymupdf[OF b])
  have h2: "quality_score short_result < quality_threshold parser0"
    by (simp add: short_result_def parser0_def)
  have h3: "has_fallback_backend env_three parser0" by (rule has_fallback_three)
  have e: "fst (extract_text 1 env_three (Some [1]) parser0) =
     Inr (prose_result (metadata_read False) ''pypdf2'')"
    using extract_text_three[of 0] by simp
  show ?thesis
    using h1 h2 h3 e fallback_never_lowers_score[OF h1 h2 h3, of 1] by simp
qed

text \<open>
  Claim C6, the input on which the code departs from it. \<^verbatim>\<open>can_parse\<close> is called on line
  182, before the \<^verbatim>\<open>try\<close> of line 193, so what \<^verbatim>\<open>Path.exists()\<close> raises is not caught: for
  a path with the suffix \<^verbatim>\<open>.pdf\<close> whose name is too long for the file system the call of
  \<^verbatim>\<open>extract_text\<close> ends with that \<^verbatim>\<open>OSError\<close> and returns no result.
\<close>

theorem exists_error_escapes_extract_text:
  "extract_text 0 env_long_name None parser0 = (Inl OSError_name_too_long, parser0)"
proof -
  have "can_parse env_long_name = Inl OSError_name_too_long"
    by (simp add: can_parse_def env_long_name_def env_single_def lower_char_def)
  then show ?thesis by (simp add: extract_text.simps extract_primary_raise)
qed

lemma skip_page_empty: "skip_page (Some []) n = skip_page None n"
  by (simp add: skip_page_def)

lemma page_loop_empty:
  "page_loop mk (Some []) n rs acc = page_loop mk None n rs acc"
  by (induction rs arbitrary: n acc) (simp_all add: skip_page_empty split: sum.splits)

lemma extract_pages_content_empty:
  "extract_pages_content env md (Some []) s = extract_pages_content env md None s"
  unfolding extract_pages_content_def page_loop_empty by (rule refl)

lemma extract_primary_empty:
  "extract_primary env (Some []) s =
     (case extract_primary env None s of
        Inl ended \<Rightarrow> Inl ended
      | Inr (result, selected', s2) \<Rightarrow> Inr (result, Some [], s2))"
proof (rule extract_primary_cases[of env None s])
  fix e assume "can_parse env = Inl e" "extract_primary env None s = Inl (Inl e, s)"
  then show ?thesis by (simp add: extract_primary_raise)
next
  assume "can_parse env = Inr False"
    "extract_primary env None s = Inl (Inr (cannot_parse_result env s), s)"
  then show ?thesis by (simp add: extract_primary_cannot)
next
  fix e assume "can_parse env = Inr True" "extract_metadata env s = (Inl e, s)"
    "extract_primary env None s =
      Inl (Inr (exception_result e s), log_event (Error_extracting e) s)"
  then show ?thesis by (simp add: extract_primary_stat handle_exception_def)
next
  fix md s1 ps assume "None = Some ps"
  then show ?thesis by simp
next
  fix md s1 sel' pd s2
  assume cp: "can_parse env = Inr True" and m: "extract_metadata env s = (Inr md, s1)"
    and sel': "sel' = (if requested None then map_option (valid_pages md) None else None)"
    and pc: "extract_pages_content env md sel' s1 = (pd, s2)"
    and e: "extract_primary env None s =
         Inr (\<lparr>success = True, result_text = full_text_of pd, pages = pd, metadata = md,
               backend_used = backend_name (backend s2),
               quality_score = assess_extraction_quality pd (full_text_of pd),
               error_message = None\<rparr>, sel', s2)"
  from sel' pc have pc': "extract_pages_content env md (Some []) s1 = (pd, s2)"
    by (simp add: requested_def extract_pages_content_empty)
  have "extract_primary env (Some []) s =
         Inr (\<lparr>success = True, result_text = full_text_of pd, pages = pd, metadata = md,
               backend_used = backend_name (backend s2),
               quality_score = assess_extraction_quality pd (full_text_of pd),
               error_message = None\<rparr>, Some [], s2)"
    by (rule extract_primary_proceed[OF cp m _ _ pc']) (simp_all add: requested_def)
  with e show ?thesis by simp
qed

lemma fallback_loop_empty:
  assumes nested: "\<And>d' s. d = Suc d' \<Longrightarrow>
     extract_text d' env (Some []) s = extract_text d' env None s"
  shows "fallback_loop d env (Some []) ob bs s = fallback_loop d env None ob bs s"
proof (induction bs arbitrary: s)
  case Nil
  show ?case by simp
next
  case (Cons b bs)
  show ?case
  proof (cases d)
    case 0
    with Cons show ?thesis by simp
  next
    case (Suc d')
    with Cons nested[OF Suc] show ?thesis by (simp split: prod.splits sum.splits)
  qed
qed

lemma extract_text_empty_selection:
  "extract_text d env (Some []) s = extract_text d env None s"
proof (induction d arbitrary: s rule: less_induct)
  case (less d)
  have loop: "\<And>ob bs s. fallback_loop d env (Some []) ob bs s = fallback_loop d env None ob bs s"
    by (rule fallback_loop_empty) (simp add: less.IH)
  have tf: "\<And>s. try_fallback_extraction d env (Some []) s = try_fallback_extraction d env None s"
    by (simp add: try_fallback_extraction.simps loop)
  show ?case
  proof (cases "extract_primary env None s")
    case (Inl ended)
    then show ?thesis by (simp add: extract_text.simps extract_primary_empty)
  next
    case (Inr t)
    obtain r0 sel' s2 where t: "t = (r0, sel', s2)" by (cases t)
    with Inr have "sel' = None" by (auto elim: extract_primary_InrE simp: requested_def)
    with Inr t show ?thesis by (simp add: extract_text.simps extract_primary_empty tf)
  qed
qed

lemma numbered_tighten:
  "numbered tp hi ps \<Longrightarrow> \<forall>p\<in>set ps. page_number p \<le> hi' \<Longrightarrow> numbered tp hi' ps"
  by (simp add: numbered_def)

lemma primary_metadata:
  assumes "extract_primary env sel s = Inr (r, sel', s2)"
  obtains s1 where "extract_metadata env s = (Inr (metadata r), s1)"
    "sel' = (if requested sel then map_option (valid_pages (metadata r)) sel else sel)"
    "\<not> (requested sel \<and> sel' = Some [])"
proof -
  from assms obtain md s1 where m: "extract_metadata env s = (Inr md, s1)"
    and s: "sel' = (if requested sel then map_option (valid_pages md) sel else sel)"
    and n: "\<not> (requested sel \<and> sel' = Some [])"
    and r: "r = \<lparr>success = True, result_text = full_text_of (pages r), pages = pages r,
          metadata = md, backend_used = backend_name (backend s2),
          quality_score = assess_extraction_quality (pages r) (full_text_of (pages r)),
          error_message = None\<rparr>"
    by (rule extract_primary_InrE)
  from r have "metadata r = md" by (metis extraction_result.select_convs(4))
  with m s n show thesis by (intro that) simp_all
qed

lemma primary_requested_pages:
  assumes p: "extract_primary env sel s = Inr (r, sel', s2)"
    and sel: "sel = Some l" "l \<noteq> []"
  shows "sel' = Some (valid_pages (metadata r) l) \<and> valid_pages (metadata r) l \<noteq> [] \<and>
         numbered sel' (page_count (metadata r)) (pages r) \<and>
         (\<forall>p\<in>set (pages r). page_number p \<in> set l)"
proof -
  from p obtain s1 where m: "extract_metadata env s = (Inr (metadata r), s1)"
    and s': "sel' = (if requested sel then map_option (valid_pages (metadata r)) sel else sel)"
    and n: "\<not> (requested sel \<and> sel' = Some [])"
    by (rule primary_metadata)
  from sel have rq: "requested sel" by (simp add: requested_def)
  with s' sel n have v: "sel' = Some (valid_pages (metadata r) l)"
    "valid_pages (metadata r) l \<noteq> []" by simp_all
  from primary_pages_numbered[OF p] v
  have num: "numbered (Some (valid_pages (metadata r) l)) (int (doc_length env (backend s))) (pages r)"
    by simp
  then have mem: "\<forall>p\<in>set (pages r). page_number p \<in> set (valid_pages (metadata r) l)"
    using v(2) by (auto simp: numbered_def)
  then have "\<forall>p\<in>set (pages r). page_number p \<le> page_count (metadata r)"
    by (auto simp: valid_pages_def)
  from numbered_tighten[OF num this] v mem show ?thesis by (auto simp: valid_pages_def)
qed

lemma numbered_bounds:
  assumes "numbered tp hi ps" and "0 \<le> hi"
  shows "int (length ps) \<le> hi \<and> (\<forall>p\<in>set ps. 1 \<le> page_number p \<and> page_number p \<le> hi)"
  using numbered_length[OF assms(1)] assms by (auto simp: numbered_def)

lemma primary_page_count_nonneg:
  assumes "extract_primary env sel s = Inr (r, sel', s2)"
  shows "0 \<le> page_count (metadata r)"
  using assms by (elim primary_metadata) (rule extract_metadata_page_count_nonneg)

lemma page_loop_all_raise:
  "list_all isl rs \<Longrightarrow> fst (page_loop mk tp n rs acc) = acc"
  by (induction rs arbitrary: n) (auto split: sum.splits)

lemma extract_pages_content_locked:
  assumes "backend s = pymupdf" and "open_doc env pymupdf = Inr doc"
    and "list_all isl (doc_pages doc)"
  shows "fst (extract_pages_content env md tp s) = []"
proof -
  obtain ps raised where l: "page_loop pymupdf_page tp 0 (doc_pages doc) [] = (ps, raised)"
    by (cases "page_loop pymupdf_page tp 0 (doc_pages doc) []")
  with page_loop_all_raise[OF assms(3), of pymupdf_page tp 0 "[]"] have "ps = []" by simp
  with assms(1,2) l show ?thesis
    by (simp add: extract_pages_content_def split: option.splits)
qed

lemma primary_all_pages:
  assumes p: "extract_primary env sel s = Inr (r, sel', s2)"
    and nr: "\<not> requested sel" and rule: "pymupdf_library_rule env"
  shows "numbered sel' (page_count (metadata r)) (pages r)"
proof -
  from p obtain s1 where m: "extract_metadata env s = (Inr (metadata r), s1)"
    and s': "sel' = (if requested sel then map_option (valid_pages (metadata r)) sel else sel)"
    by (rule primary_metadata)
  from p obtain md s1' where m': "extract_metadata env s = (Inr md, s1')"
    and pc: "extract_pages_content env md sel' s1' = (pages r, s2)"
    by (rule extract_primary_InrE)
  from extract_metadata_page_count[OF m]
  show ?thesis
  proof
    assume "page_count (metadata r) = int (doc_length env (backend s))"
    with primary_pages_numbered[OF p] show ?thesis by simp
  next
    assume a: "page_count (metadata r) = 0 \<and> backend s = pymupdf \<and>
               \<not> pymupdf_metadata_present env"
    then obtain doc where doc: "open_doc env pymupdf = Inr doc" "doc_metadata doc = None"
      by (auto simp: pymupdf_metadata_present_def split: sum.splits)
    with rule have locked: "list_all isl (doc_pages doc)"
      by (simp add: pymupdf_library_rule_def)
    from a extract_metadata_state[OF m'] have "backend s1' = pymupdf" by simp
    from extract_pages_content_locked[OF this doc(1) locked, of md sel'] pc
    have "pages r = []" by simp
    then show ?thesis by simp
  qed
qed

text \<open>
  Claim C8. For every result \<^verbatim>\<open>extract_text\<close> returns, the number of page records is at
  most \<^verbatim>\<open>metadata.page_count\<close> and every page number lies in \<open>[1, metadata.page_count]\<close>.
  The page count of the metadata and the page records come from two openings of the
  document by the same library, which answers both alike (\<open>open_doc\<close>). The one place
  where the metadata read can end before \<^verbatim>\<open>page_count\<close> is assigned although the document
  opens is the PyMuPDF branch, when the \<^verbatim>\<open>metadata\<close> attribute is \<^verbatim>\<open>None\<close>; PyMuPDF has that
  only for a document that still needs its password, whose pages cannot be loaded
  (\<open>pymupdf_library_rule\<close>), and the page loop then yields no record.
\<close>

theorem page_records_within_page_count:
  assumes "fst (extract_text d env selected s) = Inr r"
    and "pymupdf_library_rule env"
  shows "int (length (pages r)) \<le> page_count (metadata r) \<and>
         (\<forall>p\<in>set (pages r). 1 \<le> page_number p \<and> page_number p \<le> page_count (metadata r))"
proof (rule extract_text_invariant[
    where Q="\<lambda>sel. True"
      and P="\<lambda>r. int (length (pages r)) \<le> page_count (metadata r) \<and>
         (\<forall>p\<in>set (pages r). 1 \<le> page_number p \<and> page_number p \<le> page_count (metadata r))",
    OF TrueI _ _ _ assms(1)])
  fix sel s r sel' s2
  assume p: "extract_primary env sel s = Inr (r, sel', s2)"
  have nn: "0 \<le> page_count (metadata r)" by (rule primary_page_count_nonneg[OF p])
  have n: "numbered sel' (page_count (metadata r)) (pages r)"
  proof (cases "requested sel")
    case True
    then obtain l where l: "sel = Some l" "l \<noteq> []" by (cases sel) (auto simp: requested_def)
    from primary_requested_pages[OF p l] show ?thesis by blast
  next
    case False
    then show ?thesis by (rule primary_all_pages[OF p _ assms(2)])
  qed
  from numbered_bounds[OF n nn]
  show "(int (length (pages r)) \<le> page_count (metadata r) \<and>
         (\<forall>p\<in>set (pages r). 1 \<le> page_number p \<and> page_number p \<le> page_count (metadata r))) \<and>
        True"
    by simp
next
  fix sel s r s'
  assume "extract_primary env sel s = Inl (Inr r, s')"
  then have "pages r = [] \<and> 0 \<le> page_count (metadata r)"
  proof (cases rule: extract_primary_InlE)
    case cannot
    then show ?thesis by (simp add: cannot_parse_result_def PDFMetadata_def)
  next
    case (stat e)
    then show ?thesis by (simp add: exception_result_def PDFMetadata_def)
  next
    case (novalid md s1 ps)
    from extract_metadata_page_count_nonneg[OF novalid(2)] novalid(6) show ?thesis
      by (simp add: no_valid_pages_result_def)
  qed
  then show "int (length (pages r)) \<le> page_count (metadata r) \<and>
         (\<forall>p\<in>set (pages r). 1 \<le> page_number p \<and> page_number p \<le> page_count (metadata r))"
    by simp
next
  fix e s
  show "int (length (pages (exception_result e s))) \<le> page_count (metadata (exception_result e s)) \<and>
         (\<forall>p\<in>set (pages (exception_result e s)). 1 \<le> page_number p \<and>
            page_number p \<le> page_count (metadata (exception_result e s)))"
    by (simp add: exception_result_def PDFMetadata_def)
qed

theorem page_records_within_page_count_witness:
  "fst (extract_text 0 (env_single (Some Map.empty)) None parser0) =
     Inr (prose_result (metadata_read True) ''pymupdf'') \<and>
   pymupdf_library_rule (env_single (Some Map.empty)) \<and>
   prose_page \<in> set (pages (prose_result (metadata_read True) ''pymupdf'')) \<and>
   int (length (pages (prose_result (metadata_read True) ''pymupdf''))) \<le>
     page_count (metadata (prose_result (metadata_read True) ''pymupdf'')) \<and>
   1 \<le> page_number prose_page \<and>
   page_number prose_page \<le> page_count (metadata (prose_result (metadata_read True) ''pymupdf''))"
proof -
  have b: "backend parser0 = pymupdf" by (simp add: parser0_def)
  have h1: "fst (extract_text 0 (env_single (Some Map.empty)) None parser0) =
     Inr (prose_result (metadata_read True) ''pymupdf'')"
    by (simp add: extract_text_single_read[OF b])
  have h2: "pymupdf_library_rule (env_single (Some Map.empty))"
    by (simp add: pymupdf_library_rule_def open_single one_page_def)
  have h3: "prose_page \<in> set (pages (prose_result (metadata_read True) ''pymupdf''))"
    by (simp add: prose_result_def)
  show ?thesis
    using h1 h2 h3 page_records_within_page_count[OF h1 h2] by simp
qed

lemma extract_text_returns:
  assumes "can_parse env = Inr b"
  shows "\<exists>r. fst (extract_text d env sel s) = Inr r"
proof (cases "extract_primary env sel s")
  case (Inl ended)
  obtain x s' where ended: "ended = (x, s')" by (cases ended)
  have "\<exists>r. x = Inr r"
    by (rule extract_primary_cases[of env sel s]) (use Inl ended assms in auto)
  with Inl ended show ?thesis by (auto simp: extract_text.simps)
next
  case (Inr t)
  obtain r0 sel' s2 where t: "t = (r0, sel', s2)" by (cases t)
  with Inr show ?thesis
    by (auto simp: extract_text.simps handle_exception_def split: prod.splits sum.splits)
qed

lemma fallback_loop_raises:
  assumes cp: "can_parse env = Inr b"
  shows "fst (fallback_loop d env sel ob bs s) = Inl e \<Longrightarrow> e = RecursionError"
proof (induction bs arbitrary: s)
  case Nil
  then show ?case by simp
next
  case (Cons b' bs)
  show ?case
  proof (cases d)
    case 0
    with Cons show ?thesis by (auto split: if_splits)
  next
    case (Suc d')
    let ?s = "(log_event (Info_trying_fallback b') s)\<lparr>backend := b'\<rparr>"
    obtain x s1 where x: "extract_text d' env sel ?s = (x, s1)"
      by (cases "extract_text d' env sel ?s")
    from extract_text_returns[OF cp, of d' sel ?s] x obtain r where r: "x = Inr r" by auto
    from Cons.prems Suc x r Cons.IH[of s] Cons.IH[of s1] show ?thesis
      by (auto split: if_splits)
  qed
qed

lemma try_fallback_raises:
  assumes "can_parse env = Inr b" and "fst (try_fallback_extraction d env sel s) = Inl e"
  shows "e = RecursionError"
proof -
  obtain x s1 where x: "fallback_loop d env sel (backend s) fallback_order s = (x, s1)"
    by (cases "fallback_loop d env sel (backend s) fallback_order s")
  with assms(2) have "x = Inl e"
    by (auto simp: try_fallback_extraction.simps Let_def split: sum.splits option.splits)
  with x fallback_loop_raises[OF assms(1), of d sel "backend s" fallback_order s e]
  show ?thesis by simp
qed

lemma skip_page_unrequested: "\<not> requested tp \<Longrightarrow> \<not> skip_page tp n"
  by (cases tp) (auto simp: requested_def skip_page_def)

lemma page_loop_unrequested:
  "\<not> requested tp \<Longrightarrow>
   fst (page_loop mk tp n rs acc) = acc @ pages_until_failure mk n rs"
proof (induction rs arbitrary: n acc)
  case Nil
  show ?case by simp
next
  case (Cons r rs)
  show ?case
  proof (cases r)
    case (Inl e)
    with Cons.prems show ?thesis by (simp add: skip_page_unrequested)
  next
    case (Inr page)
    with Cons show ?thesis
      by (cases "mk n page") (simp_all add: skip_page_unrequested)
  qed
qed

lemma extract_pages_content_unrequested:
  assumes "\<not> requested tp"
  shows "fst (extract_pages_content env md tp s) = all_pages env (backend s)"
proof (cases "open_doc env (backend s)")
  case (Inl e)
  then show ?thesis
    by (cases "backend s") (simp_all add: extract_pages_content_def all_pages_def)
next
  case (Inr doc)
  have l: "\<And>mk. fst (page_loop mk tp 0 (doc_pages doc) []) =
                 pages_until_failure mk 0 (doc_pages doc)"
    using page_loop_unrequested[OF assms, of _ 0 "doc_pages doc" "[]"] by simp
  from Inr l[of pymupdf_page] l[of pdfplumber_page] l[of pypdf2_page] show ?thesis
    by (cases "backend s")
       (auto simp: extract_pages_content_def all_pages_def split: prod.splits option.splits)
qed

lemma all_pages_named_backend [simp]: "all_pages_named env (backend_name b) = all_pages env b"
  by (cases b) (simp_all add: all_pages_named_def)

lemma primary_unrequested:
  assumes p: "extract_primary env sel s = Inr (r, sel', s2)" and nr: "\<not> requested sel"
  shows "sel' = sel \<and> pages r = all_pages_named env (backend_used r) \<and> error_message r = None"
proof -
  from p obtain md s1 where m: "extract_metadata env s = (Inr md, s1)"
    and s': "sel' = (if requested sel then map_option (valid_pages md) sel else sel)"
    and pc: "extract_pages_content env md sel' s1 = (pages r, s2)"
    and r: "r = \<lparr>success = True, result_text = full_text_of (pages r), pages = pages r,
          metadata = md, backend_used = backend_name (backend s2),
          quality_score = assess_extraction_quality (pages r) (full_text_of (pages r)),
          error_message = None\<rparr>"
    by (rule extract_primary_InrE)
  from s' nr have e: "sel' = sel" by simp
  from r have bu: "backend_used r = backend_name (backend s2)" and em: "error_message r = None"
    by (metis extraction_result.select_convs(5), metis extraction_result.select_convs(7))
  from extract_pages_content_state[OF pc] have "backend s2 = backend s1" by simp
  moreover from extract_pages_content_unrequested[of sel' env md s1] nr e pc
  have "pages r = all_pages env (backend s1)" by simp
  ultimately show ?thesis using e bu em by simp
qed

lemma success_has_no_error:
  assumes "fst (extract_text d env sel s) = Inr r" and "success r"
  shows "error_message r = None"
proof -
  have "success r \<longrightarrow> error_message r = None"
  proof (rule extract_text_pages_invariant[where Q="\<lambda>_. True"
        and P="\<lambda>r. success r \<longrightarrow> error_message r = None", OF TrueI _ _ assms(1)])
    fix sel s r sel' s2
    assume p: "extract_primary env sel s = Inr (r, sel', s2)"
    then obtain md where
      "r = \<lparr>success = True, result_text = full_text_of (pages r), pages = pages r,
          metadata = md, backend_used = backend_name (backend s2),
          quality_score = assess_extraction_quality (pages r) (full_text_of (pages r)),
          error_message = None\<rparr>"
      by (rule extract_primary_InrE)
    then have "error_message r = None" by (metis extraction_result.select_convs(7))
    then show "(success r \<longrightarrow> error_message r = None) \<and> True" by simp
  qed simp
  with assms(2) show ?thesis by simp
qed

lemma unrequested_result_has_all_pages:
  assumes "fst (extract_text d env sel s) = Inr r" and "\<not> requested sel" and "success r"
  shows "pages r = all_pages_named env (backend_used r)"
proof -
  have "success r \<longrightarrow> pages r = all_pages_named env (backend_used r)"
  proof (rule extract_text_pages_invariant[where Q="\<lambda>sel. \<not> requested sel"
        and P="\<lambda>r. success r \<longrightarrow> pages r = all_pages_named env (backend_used r)",
        OF assms(2) _ _ assms(1)])
    fix sel s r sel' s2
    assume "\<not> requested sel" "extract_primary env sel s = Inr (r, sel', s2)"
    from primary_unrequested[OF this(2) this(1)] this(1)
    show "(success r \<longrightarrow> pages r = all_pages_named env (backend_used r)) \<and> \<not> requested sel'"
      by simp
  qed simp
  with assms(3) show ?thesis by simp
qed

lemma recursion_error_message:
  "exn_str RecursionError \<noteq> ''No valid pages specified''"
  by (simp add: RecursionError_def)

lemma proceeding_call_not_no_valid_pages:
  assumes cp: "can_parse env = Inr True"
    and p: "extract_primary env sel s = Inr (result, sel', s2)"
  shows "case fst (extract_text d env sel s) of
           Inl e \<Rightarrow> False
         | Inr r \<Rightarrow> error_message r \<noteq> Some ''No valid pages specified''"
proof -
  from p obtain md where
      "result = \<lparr>success = True, result_text = full_text_of (pages result),
          pages = pages result, metadata = md, backend_used = backend_name (backend s2),
          quality_score = assess_extraction_quality (pages result) (full_text_of (pages result)),
          error_message = None\<rparr>"
    by (rule extract_primary_InrE)
  then have ok: "error_message result = None" by (metis extraction_result.select_convs(7))
  let ?s = "log_event (Info_quality_below_threshold (quality_score result)) s2"
  obtain x s3 where x: "try_fallback_extraction d env sel' ?s = (x, s3)"
    by (cases "try_fallback_extraction d env sel' ?s")
  show ?thesis
  proof (cases x)
    case (Inl e)
    with x try_fallback_raises[OF cp, of d sel' ?s e] have "e = RecursionError" by simp
    with p x Inl ok show ?thesis
      by (simp add: extract_text.simps handle_exception_def exception_result_def
            recursion_error_message)
  next
    case (Inr fr)
    have "fr = fallback_failed_result \<or> (success fr \<and> (success fr \<longrightarrow> error_message fr = None))"
    proof (rule try_fallback_returns[where P="\<lambda>r. success r \<longrightarrow> error_message r = None"])
      show "fst (try_fallback_extraction d env sel' ?s) = Inr fr" using x Inr by simp
    next
      fix d' s' r' assume "fst (extract_text d' env sel' s') = Inr r'"
      then show "success r' \<longrightarrow> error_message r' = None"
        by (auto dest: success_has_no_error)
    qed
    then have "success fr \<longrightarrow> error_message fr = None" by auto
    with p x Inr ok show ?thesis by (simp add: extract_text.simps)
  qed
qed

lemma empty_selection_not_no_valid_pages:
  assumes cp: "can_parse env = Inr True"
    and m: "extract_metadata env s = (Inr md, s1)"
  shows "case fst (extract_text d env (Some []) s) of
           Inl e \<Rightarrow> False
         | Inr r \<Rightarrow> error_message r \<noteq> Some ''No valid pages specified''"
proof -
  obtain pd s2 where pc: "extract_pages_content env md (Some []) s1 = (pd, s2)"
    by (cases "extract_pages_content env md (Some []) s1")
  have "extract_primary env (Some []) s =
     Inr (\<lparr>success = True, result_text = full_text_of pd, pages = pd,
      metadata = md, backend_used = backend_name (backend s2),
      quality_score = assess_extraction_quality pd (full_text_of pd),
      error_message = None\<rparr>, Some [], s2)"
    by (rule extract_primary_proceed[OF cp m _ _ pc]) (simp_all add: requested_def)
  then show ?thesis by (rule proceeding_call_not_no_valid_pages[OF cp])
qed

text \<open>
  Claim C9. \<^verbatim>\<open>extract_text\<close> called with the empty page list is treated as when called with
  no page list. The two calls have the same outcome and leave the same state; a
  successful result holds all pages of the document, as read by the backend the result
  names (in order, up to the first page whose read raises, where the loop of the source
  ends); and once the page validation is reached (the file can be parsed and
  \<^verbatim>\<open>_extract_metadata\<close> returns) the call returns a result, which is not the failure
  \<^verbatim>\<open>No valid pages specified\<close>.
\<close>

theorem empty_page_list_means_all_pages:
  "extract_text d env (Some []) s = extract_text d env None s \<and>
   (fst (extract_text d env (Some []) s) = Inr r \<and> success r \<longrightarrow>
      pages r = all_pages_named env (backend_used r)) \<and>
   (can_parse env = Inr True \<and> extract_metadata env s = (Inr md, s1) \<longrightarrow>
      (case fst (extract_text d env (Some []) s) of
         Inl e \<Rightarrow> False
       | Inr r' \<Rightarrow> error_message r' \<noteq> Some ''No valid pages specified''))"
proof (intro conjI impI)
  show "extract_text d env (Some []) s = extract_text d env None s"
    by (rule extract_text_empty_selection)
next
  assume "fst (extract_text d env (Some []) s) = Inr r \<and> success r"
  then show "pages r = all_pages_named env (backend_used r)"
    by (intro unrequested_result_has_all_pages[of d env "Some []" s]) (simp_all add: requested_def)
next
  assume "can_parse env = Inr True \<and> extract_metadata env s = (Inr md, s1)"
  then show "case fst (extract_text d env (Some []) s) of
         Inl e \<Rightarrow> False
       | Inr r' \<Rightarrow> error_message r' \<noteq> Some ''No valid pages specified''"
    by (intro empty_selection_not_no_valid_pages[of env s md s1]) simp_all
qed

lemma all_pages_single: "all_pages (env_single meta) pymupdf = [prose_page]"
  by (simp add: all_pages_def open_single one_page_def pymupdf_prose_page)

theorem empty_page_list_means_all_pages_witness:
  "fst (extract_text 0 (env_single (Some Map.empty)) (Some []) parser0) =
     Inr (prose_result (metadata_read True) ''pymupdf'') \<and>
   success (prose_result (metadata_read True) ''pymupdf'') \<and>
   can_parse (env_single (Some Map.empty)) = Inr True \<and>
   extract_metadata (env_single (Some Map.empty)) parser0 = (Inr (metadata_read True), parser0) \<and>
   pages (prose_result (metadata_read True) ''pymupdf'') = [prose_page] \<and>
   all_pages_named (env_single (Some Map.empty)) ''pymupdf'' = [prose_page] \<and>
   error_message (prose_result (metadata_read True) ''pymupdf'') \<noteq>
     Some ''No valid pages specified''"
proof -
  have b: "backend parser0 = pymupdf" by (simp add: parser0_def)
  note t = empty_page_list_means_all_pages[of 0 "env_single (Some Map.empty)" parser0
      "prose_result (metadata_read True) ''pymupdf''" "metadata_read True" parser0]
  from t have eq: "extract_text 0 (env_single (Some Map.empty)) (Some []) parser0 =
      extract_text 0 (env_single (Some Map.empty)) None parser0" by blast
  have h1: "fst (extract_text 0 (env_single (Some Map.empty)) (Some []) parser0) =
     Inr (prose_result (metadata_read True) ''pymupdf'')"
    by (simp add: eq extract_text_single_read[OF b])
  have h2: "success (prose_result (metadata_read True) ''pymupdf'')"
    by (simp add: prose_result_def)
  have h3: "can_parse (env_single (Some Map.empty)) = Inr True" by (rule can_parse_single)
  have h4: "extract_metadata (env_single (Some Map.empty)) parser0 =
            (Inr (metadata_read True), parser0)"
    by (rule metadata_single_read[OF b])
  from t h1 h2 have c1: "pages (prose_result (metadata_read True) ''pymupdf'') =
      all_pages_named (env_single (Some Map.empty))
        (backend_used (prose_result (metadata_read True) ''pymupdf''))" by blast
  from t h3 h4 have "case fst (extract_text 0 (env_single (Some Map.empty)) (Some []) parser0) of
         Inl e \<Rightarrow> False
       | Inr r' \<Rightarrow> error_message r' \<noteq> Some ''No valid pages specified''" by blast
  with h1 have c2: "error_message (prose_result (metadata_read True) ''pymupdf'') \<noteq>
     Some ''No valid pages specified''" by simp
  have p: "pages (prose_result (metadata_read True) ''pymupdf'') = [prose_page]"
    by (simp add: prose_result_def)
  from c1 p have ap: "all_pages_named (env_single (Some Map.empty)) ''pymupdf'' = [prose_page]"
    by (simp add: prose_result_def)
  show ?thesis using h1 h2 h3 h4 p ap c2 by simp
qed

lemma returned_pages_requested:
  assumes r: "fst (extract_text d env (Some ps) s) = Inr r" and ps: "ps \<noteq> []"
  shows "\<forall>p\<in>set (pages r). page_number p \<in> set ps \<and> 1 \<le> page_number p \<and>
           page_number p \<le> page_count (metadata r)"
proof (rule extract_text_pages_invariant[
    where Q="\<lambda>sel. \<exists>l. sel = Some l \<and> l \<noteq> [] \<and> set l \<subseteq> set ps"
      and P="\<lambda>r. \<forall>p\<in>set (pages r). page_number p \<in> set ps \<and> 1 \<le> page_number p \<and>
           page_number p \<le> page_count (metadata r)",
    OF _ _ _ r])
  show "\<exists>l. Some ps = Some l \<and> l \<noteq> [] \<and> set l \<subseteq> set ps" using ps by simp
next
  fix sel s r sel' s2
  assume q: "\<exists>l. sel = Some l \<and> l \<noteq> [] \<and> set l \<subseteq> set ps"
    and p: "extract_primary env sel s = Inr (r, sel', s2)"
  from q obtain l where l: "sel = Some l" "l \<noteq> []" "set l \<subseteq> set ps" by blast
  from primary_requested_pages[OF p l(1,2)]
  have v: "sel' = Some (valid_pages (metadata r) l)" "valid_pages (metadata r) l \<noteq> []"
    and n: "numbered sel' (page_count (metadata r)) (pages r)"
    and mem: "\<forall>p\<in>set (pages r). page_number p \<in> set l"
    by blast+
  have "set (valid_pages (metadata r) l) \<subseteq> set ps" using l(3) by (auto simp: valid_pages_def)
  with v have q': "\<exists>l. sel' = Some l \<and> l \<noteq> [] \<and> set l \<subseteq> set ps" by simp
  from n mem l(3) have "\<forall>p\<in>set (pages r). page_number p \<in> set ps \<and> 1 \<le> page_number p \<and>
           page_number p \<le> page_count (metadata r)"
    by (auto simp: numbered_def)
  with q' show "(\<forall>p\<in>set (pages r). page_number p \<in> set ps \<and> 1 \<le> page_number p \<and>
           page_number p \<le> page_count (metadata r)) \<and>
        (\<exists>l. sel' = Some l \<and> l \<noteq> [] \<and> set l \<subseteq> set ps)" by simp
qed simp

text \<open>
  Claim C5. For a call of \<^verbatim>\<open>extract_text\<close> with a non-empty page list: the page records of
  the result it returns have page numbers that were requested and lie in
  \<open>[1, metadata.page_count]\<close>, so a requested number outside that range is dropped; when
  the page validation is reached (the file can be parsed and \<^verbatim>\<open>_extract_metadata\<close> returns)
  and no requested number is within the bounds, the call returns the failed result with
  the message \<^verbatim>\<open>No valid pages specified\<close>, with no text and no page record; and when some
  requested number is within the bounds, the dropped ones cause no failure: the call
  returns a result that does not carry that message.
\<close>

theorem requested_pages_filtered:
  assumes "ps \<noteq> []"
  shows "(fst (extract_text d env (Some ps) s) = Inr r \<longrightarrow>
            (\<forall>p\<in>set (pages r). page_number p \<in> set ps \<and> 1 \<le> page_number p \<and>
               page_number p \<le> page_count (metadata r))) \<and>
         (can_parse env = Inr True \<and> extract_metadata env s = (Inr md, s1) \<and>
          valid_pages md ps = [] \<longrightarrow>
            extract_text d env (Some ps) s = (Inr (no_valid_pages_result md s1), s1) \<and>
            \<not> success (no_valid_pages_result md s1) \<and>
            result_text (no_valid_pages_result md s1) = [] \<and>
            pages (no_valid_pages_result md s1) = [] \<and>
            error_message (no_valid_pages_result md s1) = Some ''No valid pages specified'') \<and>
         (can_parse env = Inr True \<and> extract_metadata env s = (Inr md, s1) \<and>
          valid_pages md ps \<noteq> [] \<longrightarrow>
            (case fst (extract_text d env (Some ps) s) of
               Inl e \<Rightarrow> False
             | Inr r' \<Rightarrow> error_message r' \<noteq> Some ''No valid pages specified''))"
proof (intro conjI impI)
  assume "fst (extract_text d env (Some ps) s) = Inr r"
  then show "\<forall>p\<in>set (pages r). page_number p \<in> set ps \<and> 1 \<le> page_number p \<and>
               page_number p \<le> page_count (metadata r)"
    using assms by (rule returned_pages_requested)
next
  assume a: "can_parse env = Inr True \<and> extract_metadata env s = (Inr md, s1) \<and>
          valid_pages md ps = []"
  then have "extract_primary env (Some ps) s = Inl (Inr (no_valid_pages_result md s1), s1)"
    using assms by (intro extract_primary_novalid[where ps=ps]) simp_all
  then show "extract_text d env (Some ps) s = (Inr (no_valid_pages_result md s1), s1)"
    by (simp add: extract_text.simps)
next
  show "\<not> success (no_valid_pages_result md s1)" by simp
next
  show "result_text (no_valid_pages_result md s1) = []" by simp
next
  show "pages (no_valid_pages_result md s1) = []" by simp
next
  show "error_message (no_valid_pages_result md s1) = Some ''No valid pages specified''"
    by (simp add: no_valid_pages_result_def)
next
  assume a: "can_parse env = Inr True \<and> extract_metadata env s = (Inr md, s1) \<and>
          valid_pages md ps \<noteq> []"
  obtain pd s2 where pc: "extract_pages_content env md (Some (valid_pages md ps)) s1 = (pd, s2)"
    by (cases "extract_pages_content env md (Some (valid_pages md ps)) s1")
  from a have cp: "can_parse env = Inr True" and m: "extract_metadata env s = (Inr md, s1)"
    and v: "valid_pages md ps \<noteq> []" by simp_all
  have "extract_primary env (Some ps) s =
     Inr (\<lparr>success = True, result_text = full_text_of pd, pages = pd,
      metadata = md, backend_used = backend_name (backend s2),
      quality_score = assess_extraction_quality pd (full_text_of pd),
      error_message = None\<rparr>, Some (valid_pages md ps), s2)"
    by (rule extract_primary_proceed[OF cp m _ _ pc]) (use assms v in \<open>simp_all add: requested_def\<close>)
  then show "case fst (extract_text d env (Some ps) s) of
               Inl e \<Rightarrow> False
             | Inr r' \<Rightarrow> error_message r' \<noteq> Some ''No valid pages specified''"
    by (rule proceeding_call_not_no_valid_pages[OF cp])
qed

lemma pages_single_first:
  "backend s = pymupdf \<Longrightarrow>
   extract_pages_content (env_single meta) md (Some [1]) s = ([prose_page], s)"
  by (simp add: extract_pages_content_def open_single one_page_def skip_page_def
        pymupdf_prose_page)

lemma valid_pages_first: "valid_pages (metadata_read b) [1, 9999] = [1]"
  by (simp add: valid_pages_def metadata_read_def)

lemma valid_pages_none: "valid_pages (metadata_read b) [9999] = []"
  by (simp add: valid_pages_def metadata_read_def)

lemma primary_single_selected:
  assumes "backend s = pymupdf"
  shows "extract_primary (env_single (Some Map.empty)) (Some [1, 9999]) s =
         Inr (prose_result (metadata_read True) ''pymupdf'', Some [1], s)"
  using extract_primary_proceed[OF can_parse_single metadata_single_read[OF assms] _ _
          pages_single_first[OF assms], where sel="Some [1, 9999]"] assms
  by (simp add: requested_def valid_pages_first prose_full_text prose_aggregate prose_result_def)

lemma extract_text_single_selected:
  assumes "backend s = pymupdf"
  shows "extract_text d (env_single (Some Map.empty)) (Some [1, 9999]) s =
         (Inr (prose_result (metadata_read True) ''pymupdf''), log_event (Info_pdf_extracted 1) s)"
  by (simp add: extract_text.simps primary_single_selected[OF assms]
        no_fallback_single[OF assms] prose_result_def)

theorem requested_pages_filtered_witness:
  "[1, 9999] \<noteq> ([] :: int list) \<and>
   fst (extract_text 0 (env_single (Some Map.empty)) (Some [1, 9999]) parser0) =
     Inr (prose_result (metadata_read True) ''pymupdf'') \<and>
   can_parse (env_single (Some Map.empty)) = Inr True \<and>
   extract_metadata (env_single (Some Map.empty)) parser0 = (Inr (metadata_read True), parser0) \<and>
   valid_pages (metadata_read True) [1, 9999] \<noteq> [] \<and>
   pages (prose_result (metadata_read True) ''pymupdf'') = [prose_page] \<and>
   page_number prose_page \<in> set [1, 9999] \<and> 1 \<le> page_number prose_page \<and>
   page_number prose_page \<le> page_count (metadata (prose_result (metadata_read True) ''pymupdf'')) \<and>
   error_message (prose_result (metadata_read True) ''pymupdf'') \<noteq>
     Some ''No valid pages specified'' \<and>
   [9999] \<noteq> ([] :: int list) \<and> valid_pages (metadata_read True) [9999] = [] \<and>
   extract_text 0 (env_single (Some Map.empty)) (Some [9999]) parser0 =
     (Inr (no_valid_pages_result (metadata_read True) parser0), parser0) \<and>
   \<not> success (no_valid_pages_result (metadata_read True) parser0) \<and>
   error_message (no_valid_pages_result (metadata_read True) parser0) =
     Some ''No valid pages specified''"
proof -
  have b: "backend parser0 = pymupdf" by (simp add: parser0_def)
  have n1: "[1, 9999] \<noteq> ([] :: int list)" and n2: "[9999] \<noteq> ([] :: int list)" by simp_all
  note t1 = requested_pages_filtered[OF n1, of 0 "env_single (Some Map.empty)" parser0
      "prose_result (metadata_read True) ''pymupdf''" "metadata_read True" parser0]
  note t2 = requested_pages_filtered[OF n2, of 0 "env_single (Some Map.empty)" parser0
      "prose_result (metadata_read True) ''pymupdf''" "metadata_read True" parser0]
  have h1: "fst (extract_text 0 (env_single (Some Map.empty)) (Some [1, 9999]) parser0) =
     Inr (prose_result (metadata_read True) ''pymupdf'')"
    by (simp add: extract_text_single_selected[OF b])
  have h3: "can_parse (env_single (Some Map.empty)) = Inr True" by (rule can_parse_single)
  have h4: "extract_metadata (env_single (Some Map.empty)) parser0 =
            (Inr (metadata_read True), parser0)"
    by (rule metadata_single_read[OF b])
  have v1: "valid_pages (metadata_read True) [1, 9999] \<noteq> []" by (simp add: valid_pages_first)
  have v2: "valid_pages (metadata_read True) [9999] = []" by (rule valid_pages_none)
  have p: "pages (prose_result (metadata_read True) ''pymupdf'') = [prose_page]"
    by (simp add: prose_result_def)
  from t1 h1 have "\<forall>p\<in>set (pages (prose_result (metadata_read True) ''pymupdf'')).
      page_number p \<in> set [1, 9999] \<and> 1 \<le> page_number p \<and>
      page_number p \<le> page_count (metadata (prose_result (metadata_read True) ''pymupdf''))"
    by blast
  with p have c1: "page_number prose_page \<in> set [1, 9999] \<and> 1 \<le> page_number prose_page \<and>
      page_number prose_page \<le> page_count (metadata (prose_result (metadata_read True) ''pymupdf''))"
    by simp
  from t1 h3 h4 v1
  have "case fst (extract_text 0 (env_single (Some Map.empty)) (Some [1, 9999]) parser0) of
               Inl e \<Rightarrow> False
             | Inr r' \<Rightarrow> error_message r' \<noteq> Some ''No valid pages specified''" by blast
  with h1 have c3: "error_message (prose_result (metadata_read True) ''pymupdf'') \<noteq>
     Some ''No valid pages specified''" by simp
  from t2 h3 h4 v2
  have c2: "extract_text 0 (env_single (Some Map.empty)) (Some [9999]) parser0 =
     (Inr (no_valid_pages_result (metadata_read True) parser0), parser0) \<and>
    \<not> success (no_valid_pages_result (metadata_read True) parser0) \<and>
    error_message (no_valid_pages_result (metadata_read True) parser0) =
     Some ''No valid pages specified''" by blast
  show ?thesis using n1 n2 h1 h3 h4 v1 v2 p c1 c2 c3 by simp
qed























end
